theory Spec2Isabelle
  imports Complex_Main "HOL-Library.AList"
begin

section \<open>Data model of the NLP manager\<close>

text \<open>
  The manager (\<^verbatim>\<open>src/lib/nlp/nlp-manager.js\<close>) passes many values of its collaborators
  along without looking inside: training documents, label lists, weight vectors, the NER,
  slot and NLG state, sentiment records. They are JavaScript values, modelled by one
  datatype.
\<close>

datatype jsvalue =
    JNull
  | JBool bool
  | JNum real
  | JStr string
  | JArr "jsvalue list"
  | JObj "(string \<times> jsvalue) list"

text \<open>
  An observation row is a JavaScript array of numbers. A cell is \<open>Some n\<close> for the number
  \<open>n\<close> and \<open>None\<close> for an empty slot (a hole, or \<^verbatim>\<open>undefined\<close>): \<^verbatim>\<open>map\<close>,
  \<^verbatim>\<open>filter\<close> and \<^verbatim>\<open>forEach\<close> skip both. The same arrays hold the dense 0/1 rows of a
  trained classifier and the column positions of an exported one. An object keyed by
  label is the list of its entries in \<^verbatim>\<open>Object.entries\<close> order.
\<close>

type_synonym cell = "nat option"
type_synonym row = "cell list"
type_synonym matrix = "row list"

record lrc =
  observations :: "(string \<times> matrix) list"
  labels :: jsvalue
  classifications :: jsvalue
  observationCount :: jsvalue
  theta :: jsvalue

text \<open>
  What the manager touches of an \<^verbatim>\<open>NlpClassifier\<close>: \<^verbatim>\<open>settings.language\<close>, \<^verbatim>\<open>docs\<close>,
  \<^verbatim>\<open>features\<close> and \<^verbatim>\<open>settings.classifier\<close> (the logistic regression state). A
  \<^verbatim>\<open>classifierClone\<close> of the persisted model has the same four fields (\<^verbatim>\<open>language\<close>,
  \<^verbatim>\<open>docs\<close>, \<^verbatim>\<open>features\<close>, \<^verbatim>\<open>logistic\<close>), so one record serves both. The manager
  passes \<^verbatim>\<open>features\<close> along and reads its \<^verbatim>\<open>length\<close>; it may be an array or, as in a
  classifier that counts its features by name, an object.
\<close>

record classifier =
  language :: string
  docs :: jsvalue
  features :: jsvalue
  logistic :: lrc

datatype locales_arg = One string | Several "string list"

record settings =
  s_languages :: "locales_arg option"
  fullSearchWhenGuessed :: "bool option"
  useNlg :: "bool option"
  ner :: jsvalue

text \<open>
  The mutable state of the manager. \<^verbatim>\<open>classifiers\<close> and \<^verbatim>\<open>intentDomains\<close> are objects used
  as dictionaries. Of the NLG manager only \<^verbatim>\<open>responses\<close> is read or written here, so it
  stands for the NLG manager.
\<close>

record manager =
  m_settings :: settings
  languages :: "string list"
  classifiers :: "string \<rightharpoonup> classifier"
  intentDomains :: "string \<rightharpoonup> string"
  nerManager :: jsvalue
  slotManager :: jsvalue
  nlgManager :: jsvalue

text \<open>The object that \<^verbatim>\<open>export\<close> serialises and \<^verbatim>\<open>import\<close> reads (the persisted model).\<close>

record persisted =
  p_settings :: settings
  p_languages :: "string list"
  p_intentDomains :: "(string \<rightharpoonup> string) option"
  p_nerManager :: jsvalue
  p_slotManager :: jsvalue
  p_responses :: jsvalue
  p_classifiers :: "classifier list"

type_synonym classification = "(string \<times> real) list"
type_synonym ctx = "string \<rightharpoonup> string"

record ner_entity =
  entity :: string
  e_option :: "string option"
  utteranceText :: string

record result =
  r_locale :: "string option"
  localeIso2 :: "string option"
  r_language :: "string option"
  utterance :: "string option"
  classification :: "classification option"
  intent :: string
  domain :: "string option"
  score :: real
  entities :: "ner_entity list"
  sentiment :: jsvalue
  srcAnswer :: "string option"
  answer :: "string option"

datatype error =
    TypeError
  | RangeError
  | LocaleMustBeDefined
  | ClassifierNotFound string
  | Thrown jsvalue

text \<open>
  The collaborators of the manager are not in the repository's source under
  verification: \<^verbatim>\<open>NlpUtil\<close>, \<^verbatim>\<open>Language\<close> (the guesser), \<^verbatim>\<open>NlpClassifier\<close>,
  \<^verbatim>\<open>NerManager\<close>, \<^verbatim>\<open>SlotManager\<close>, \<^verbatim>\<open>NlgManager\<close>, \<^verbatim>\<open>SentimentManager\<close>, Handlebars and
  the \<^verbatim>\<open>processTransformer\<close> hook. Each call the manager makes on them is a parameter.
  A call on a stateful collaborator takes that collaborator's state.
\<close>

record ports =
  getTruncatedLocale :: "string \<Rightarrow> string"
  guess :: "string option \<Rightarrow> string list \<Rightarrow> string list option"
  languageName :: "string option \<Rightarrow> string option"
  blankClassifier :: classifier
  getClassifications :: "classifier \<Rightarrow> string option \<Rightarrow> classification"
  trainClassifier :: "classifier \<Rightarrow> jsvalue + classifier"
  removeExample :: "classifier \<Rightarrow> string \<Rightarrow> string \<Rightarrow> classifier"
  newNerManager :: "jsvalue \<Rightarrow> jsvalue"
  nerLoad :: "jsvalue \<Rightarrow> jsvalue \<Rightarrow> jsvalue"
  nerSave :: "jsvalue \<Rightarrow> jsvalue"
  generateEntityUtterance :: "jsvalue \<Rightarrow> string option \<Rightarrow> string option \<Rightarrow> string option"
  findEntities :: "jsvalue \<Rightarrow> string option \<Rightarrow> string option \<Rightarrow> string list \<Rightarrow> ner_entity list"
  newSlotManager :: jsvalue
  slotClear :: "jsvalue \<Rightarrow> jsvalue"
  slotLoad :: "jsvalue \<Rightarrow> jsvalue \<Rightarrow> jsvalue"
  slotSave :: "jsvalue \<Rightarrow> jsvalue"
  getIntentEntityNames :: "jsvalue \<Rightarrow> string \<Rightarrow> string list"
  slotProcess :: "jsvalue \<Rightarrow> result \<Rightarrow> ctx \<Rightarrow> bool \<times> result \<times> ctx"
  newNlgManager :: jsvalue
  findAnswer :: "jsvalue \<Rightarrow> string option \<Rightarrow> string \<Rightarrow> ctx \<Rightarrow> string option"
  sentimentProcess :: "string option \<Rightarrow> string option \<Rightarrow> jsvalue"
  handlebars :: "string \<Rightarrow> ctx \<Rightarrow> string"
  processTransformer :: "result \<Rightarrow> result"

section \<open>The locale registry\<close>

text \<open>
  Modelled from the spec: the constructor of \<^verbatim>\<open>NlpClassifier\<close> is not in the source.
  \<^verbatim>\<open>new NlpClassifier({ language: truncated })\<close> creates the classifier of a locale, and the
  persisted model carries that locale as the classifier's \<^verbatim>\<open>language\<close>: the classifier
  keeps the settings object it is given, which \<^verbatim>\<open>export\<close> reads back as
  \<^verbatim>\<open>classifier.settings.language\<close>. The rest of a new classifier is the parameter
  \<open>blankClassifier\<close>.
\<close>

definition newNlpClassifier :: "ports \<Rightarrow> string \<Rightarrow> classifier" where
  "newNlpClassifier P truncated = (blankClassifier P)\<lparr>language := truncated\<rparr>"

text \<open>The body of the \<^verbatim>\<open>forEach\<close> of \<^verbatim>\<open>addLanguage\<close>, for one locale.\<close>

definition addLocale :: "ports \<Rightarrow> manager \<Rightarrow> string \<Rightarrow> manager" where
  "addLocale P m loc =
     (let truncated = getTruncatedLocale P loc;
          m1 = (if truncated \<in> set (languages m) then m
                else m\<lparr>languages := languages m @ [truncated]\<rparr>)
      in case classifiers m1 truncated of
           None \<Rightarrow> m1\<lparr>classifiers := (classifiers m1)(truncated \<mapsto> newNlpClassifier P truncated)\<rparr>
         | Some c \<Rightarrow> m1)"

definition localesOf :: "locales_arg \<Rightarrow> string list" where
  "localesOf srcLocales = (case srcLocales of One l \<Rightarrow> [l] | Several ls \<Rightarrow> ls)"

definition addLanguage :: "ports \<Rightarrow> manager \<Rightarrow> locales_arg \<Rightarrow> manager" where
  "addLanguage P m srcLocales = foldl (addLocale P) m (localesOf srcLocales)"

text \<open>
  The constructor. A \<^verbatim>\<open>settings.languages\<close> that is given and truthy (an array, or a string
  that is not empty) is registered; the two flags default to true.
\<close>

definition truthyLocales :: "locales_arg \<Rightarrow> bool" where
  "truthyLocales a = (case a of One l \<Rightarrow> l \<noteq> [] | Several ls \<Rightarrow> True)"

definition newManager :: "ports \<Rightarrow> settings \<Rightarrow> manager" where
  "newManager P s =
     (let m0 = \<lparr>m_settings = s, languages = [], classifiers = Map.empty,
                 intentDomains = Map.empty, nerManager = newNerManager P (ner s),
                 slotManager = newSlotManager P, nlgManager = newNlgManager P\<rparr>;
          m1 = (case s_languages s of
                  None \<Rightarrow> m0
                | Some a \<Rightarrow> if truthyLocales a then addLanguage P m0 a else m0);
          s1 = (if fullSearchWhenGuessed s = None then s\<lparr>fullSearchWhenGuessed := Some True\<rparr> else s);
          s2 = (if useNlg s1 = None then s1\<lparr>useNlg := Some True\<rparr> else s1)
      in m1\<lparr>m_settings := s2\<rparr>)"

text \<open>\<^verbatim>\<open>clear\<close>, statement by statement.\<close>

definition clear :: "ports \<Rightarrow> manager \<Rightarrow> manager" where
  "clear P m =
     m\<lparr>nerManager := newNerManager P (ner (m_settings m)),
       languages := [],
       classifiers := Map.empty,
       slotManager := slotClear P (slotManager m),
       nlgManager := newNlgManager P\<rparr>"

section \<open>The model codec\<close>

text \<open>
  \<^verbatim>\<open>features.map((feat, index) => (feat === 1 ? index : undefined)).filter(n => n)\<close>:
  the positions of the cells equal to 1, then the truthy ones among them.
\<close>

definition positions :: "row \<Rightarrow> row" where
  "positions feats =
     map (\<lambda>(feat, index). if feat = Some 1 then Some index else None)
         (zip feats [0..<length feats])"

definition truthy :: "cell \<Rightarrow> bool" where
  "truthy n = (case n of None \<Rightarrow> False | Some k \<Rightarrow> k \<noteq> 0)"

definition sparseRow :: "row \<Rightarrow> row" where
  "sparseRow feats = filter truthy (positions feats)"

text \<open>
  \<^verbatim>\<open>logistic.observations = lrc.observations\<close> makes the clone's observations the very
  object of the classifier, and \<^verbatim>\<open>logistic.observations[label][row] = ...\<close> then writes
  each sparse row into it: the loop body updates the classifier.
\<close>

definition sparseObservations :: "(string \<times> matrix) list \<Rightarrow> (string \<times> matrix) list" where
  "sparseObservations obs = map (\<lambda>(label, mat). (label, map sparseRow mat)) obs"

definition exportClassifier :: "classifier \<Rightarrow> classifier" where
  "exportClassifier c =
     c\<lparr>logistic := (logistic c)\<lparr>observations := sparseObservations (observations (logistic c))\<rparr>\<rparr>"

text \<open>
  The \<^verbatim>\<open>forEach\<close> over \<^verbatim>\<open>this.languages\<close>. A language without a classifier makes
  \<^verbatim>\<open>classifier.settings\<close> a TypeError.
\<close>

fun exportLoop :: "manager \<Rightarrow> string list \<Rightarrow> error + manager" where
  "exportLoop m [] = Inr m"
| "exportLoop m (l # ls) =
     (case classifiers m l of
        None \<Rightarrow> Inl TypeError
      | Some c \<Rightarrow> exportLoop (m\<lparr>classifiers := (classifiers m)(l \<mapsto> exportClassifier c)\<rparr>) ls)"

text \<open>
  \<^verbatim>\<open>export\<close> returns the serialised clone and leaves the manager as the loop made it. The
  text is written by \<^verbatim>\<open>JSON.stringify\<close> after the loop, and every pushed
  \<^verbatim>\<open>classifierClone\<close> shares its fields with its classifier, so the clone of a language
  shows the classifier of that language as it is when the loop has ended. The model
  returns the clone object; the minified and the indented text both parse back to it.
\<close>

definition export :: "ports \<Rightarrow> manager \<Rightarrow> error + (persisted \<times> manager)" where
  "export P m =
     (case exportLoop m (languages m) of
        Inl e \<Rightarrow> Inl e
      | Inr m' \<Rightarrow>
          Inr (\<lparr>p_settings = m_settings m, p_languages = languages m,
                p_intentDomains = Some (intentDomains m),
                p_nerManager = nerSave P (nerManager m),
                p_slotManager = slotSave P (slotManager m),
                p_responses = nlgManager m,
                p_classifiers = List.map_filter (classifiers m') (languages m)\<rparr>, m'))"

text \<open>
  \<^verbatim>\<open>features[featPosition] = 1\<close>: inside the array the cell is overwritten; beyond its end
  JavaScript extends the array, leaving empty slots in between.
\<close>

definition setFeature :: "row \<Rightarrow> nat \<Rightarrow> row" where
  "setFeature feats p =
     (if p < length feats then feats[p := Some 1]
      else feats @ replicate (p - length feats) None @ [Some 1])"

text \<open>
  \<^verbatim>\<open>classifier.features.length\<close>. Reading a property of \<^verbatim>\<open>null\<close> is a TypeError; an array
  and a string have a length; an object has the value of its entry \<^verbatim>\<open>length\<close>, if it has
  one; anything else gives \<^verbatim>\<open>undefined\<close>.
\<close>

definition lengthOf :: "jsvalue \<Rightarrow> error + jsvalue option" where
  "lengthOf v =
     (case v of
        JNull \<Rightarrow> Inl TypeError
      | JBool b \<Rightarrow> Inr None
      | JNum x \<Rightarrow> Inr None
      | JStr s \<Rightarrow> Inr (Some (JNum (of_nat (length s))))
      | JArr xs \<Rightarrow> Inr (Some (JNum (of_nat (length xs))))
      | JObj entries \<Rightarrow> Inr (map_of entries ''length''))"

text \<open>
  \<^verbatim>\<open>Array(len).fill(0)\<close>. A number makes an array of that many cells (a RangeError unless
  it is an integer from 0 to \<open>2\<^sup>3\<^sup>2 - 1\<close>); any other argument, \<^verbatim>\<open>undefined\<close> included,
  makes the one-element array holding it. Every cell is then 0.
\<close>

definition zeroFilled :: "jsvalue option \<Rightarrow> error + row" where
  "zeroFilled len =
     (case len of
        Some (JNum x) \<Rightarrow>
          if 0 \<le> x \<and> x < 2 ^ 32 \<and> x = of_int \<lfloor>x\<rfloor> then Inr (replicate (nat \<lfloor>x\<rfloor>) (Some 0))
          else Inl RangeError
      | _ \<Rightarrow> Inr [Some 0])"

definition zeroRow :: "jsvalue \<Rightarrow> error + row" where
  "zeroRow feats = (case lengthOf feats of Inl e \<Rightarrow> Inl e | Inr len \<Rightarrow> zeroFilled len)"

text \<open>The \<^verbatim>\<open>row.forEach\<close> that sets the stored positions in a zero-filled row.\<close>

definition denseRow :: "row \<Rightarrow> row \<Rightarrow> row" where
  "denseRow zeros r =
     foldl (\<lambda>feats featPosition. case featPosition of None \<Rightarrow> feats | Some p \<Rightarrow> setFeature feats p)
           zeros r"

text \<open>
  The \<^verbatim>\<open>matrix.forEach\<close>: each row makes its own zero-filled array from
  \<^verbatim>\<open>classifier.features.length\<close>, so a matrix without rows never reads it.
\<close>

fun denseMatrix :: "jsvalue \<Rightarrow> matrix \<Rightarrow> error + matrix" where
  "denseMatrix feats [] = Inr []"
| "denseMatrix feats (r # rest) =
     (case zeroRow feats of
        Inl e \<Rightarrow> Inl e
      | Inr zeros \<Rightarrow>
          (case denseMatrix feats rest of
             Inl e \<Rightarrow> Inl e
           | Inr ds \<Rightarrow> Inr (denseRow zeros r # ds)))"

text \<open>
  \<^verbatim>\<open>lrc.observations = {}\<close>, then one \<^verbatim>\<open>lrc.observations[label] = []\<close> per entry, filled
  row by row. Assigning to a key of an object keeps the place of a key it has and appends
  a new one, which is \<open>AList.update\<close>.
\<close>

fun denseObservations ::
  "jsvalue \<Rightarrow> (string \<times> matrix) list \<Rightarrow> (string \<times> matrix) list \<Rightarrow> error + (string \<times> matrix) list" where
  "denseObservations feats acc [] = Inr acc"
| "denseObservations feats acc ((label, mat) # rest) =
     (case denseMatrix feats mat of
        Inl e \<Rightarrow> Inl e
      | Inr d \<Rightarrow> denseObservations feats (AList.update label d acc) rest)"

definition importClassifier :: "classifier \<Rightarrow> classifier \<Rightarrow> error + classifier" where
  "importClassifier c classifierClone =
     (case denseObservations (features classifierClone) []
             (observations (logistic classifierClone)) of
        Inl e \<Rightarrow> Inl e
      | Inr obs \<Rightarrow>
          Inr (c\<lparr>docs := docs classifierClone,
                 features := features classifierClone,
                 logistic :=
                   \<lparr>observations = obs,
                    labels = labels (logistic classifierClone),
                    classifications = classifications (logistic classifierClone),
                    observationCount = observationCount (logistic classifierClone),
                    theta = theta (logistic classifierClone)\<rparr>\<rparr>))"

text \<open>
  The \<^verbatim>\<open>for\<close> loop of \<^verbatim>\<open>import\<close>. The classifier is looked up under the clone's language as
  it is written, not under its truncation; when none is bound there, \<^verbatim>\<open>classifier.docs = ...\<close>
  is a TypeError.
\<close>

fun importLoop :: "ports \<Rightarrow> manager \<Rightarrow> classifier list \<Rightarrow> error + manager" where
  "importLoop P m [] = Inr m"
| "importLoop P m (classifierClone # rest) =
     (let m1 = addLanguage P m (One (language classifierClone))
      in case classifiers m1 (language classifierClone) of
           None \<Rightarrow> Inl TypeError
         | Some c \<Rightarrow>
             (case importClassifier c classifierClone of
                Inl e \<Rightarrow> Inl e
              | Inr c' \<Rightarrow>
                  importLoop P
                    (m1\<lparr>classifiers := (classifiers m1)(language classifierClone \<mapsto> c')\<rparr>)
                    rest))"

definition import :: "ports \<Rightarrow> manager \<Rightarrow> persisted \<Rightarrow> error + manager" where
  "import P m clone =
     importLoop P
       (m\<lparr>m_settings := p_settings clone,
          languages := p_languages clone,
          nerManager := nerLoad P (nerManager m) (p_nerManager clone),
          slotManager := slotLoad P (slotManager m) (p_slotManager clone),
          intentDomains := (case p_intentDomains clone of None \<Rightarrow> Map.empty | Some d \<Rightarrow> d),
          nlgManager := p_responses clone\<rparr>)
       (p_classifiers clone)"

section \<open>Training and removing documents\<close>

text \<open>
  \<^verbatim>\<open>train\<close>: the locales are the argument when it is truthy (an array, or a string that is
  not empty), the registered languages otherwise. The callbacks of \<^verbatim>\<open>Promise.all\<close> are
  taken in list order; a rejected \<^verbatim>\<open>classifier.train()\<close> rejects the call with what was
  thrown. A locale without a classifier passes the \<^verbatim>\<open>if (classifier)\<close> guard untouched.
\<close>

fun trainLoop :: "ports \<Rightarrow> manager \<Rightarrow> string list \<Rightarrow> error + manager" where
  "trainLoop P m [] = Inr m"
| "trainLoop P m (lang # rest) =
     (let truncated = getTruncatedLocale P lang
      in case classifiers m truncated of
           None \<Rightarrow> trainLoop P m rest
         | Some c \<Rightarrow>
             (case trainClassifier P c of
                Inl e \<Rightarrow> Inl (Thrown e)
              | Inr c' \<Rightarrow> trainLoop P (m\<lparr>classifiers := (classifiers m)(truncated \<mapsto> c')\<rparr>) rest))"

definition train :: "ports \<Rightarrow> manager \<Rightarrow> locales_arg option \<Rightarrow> error + manager" where
  "train P m loc =
     trainLoop P m
       (case loc of
          None \<Rightarrow> languages m
        | Some a \<Rightarrow> if truthyLocales a then localesOf a else languages m)"

text \<open>
  A locale or an utterance that may be \<^verbatim>\<open>undefined\<close> is a \<open>string option\<close>; \<^verbatim>\<open>!x\<close> holds of
  \<^verbatim>\<open>undefined\<close> and of the empty string.
\<close>

definition falsy :: "string option \<Rightarrow> bool" where
  "falsy s = (s = None \<or> s = Some [])"

text \<open>
  Modelled from the spec: \<^verbatim>\<open>NlpUtil.getTruncatedLocale\<close> is not in the source. It
  normalises (truncates) a language code: on a given locale it is the parameter
  \<open>getTruncatedLocale\<close>, and of no locale it gives none.
\<close>

definition truncatedLocale :: "ports \<Rightarrow> string option \<Rightarrow> string option" where
  "truncatedLocale P loc = map_option (getTruncatedLocale P) loc"

text \<open>
  \<^verbatim>\<open>guessLanguage\<close>: the port is \<^verbatim>\<open>guesser.guess(utterance, this.languages, 1)\<close>, giving the
  \<^verbatim>\<open>alpha2\<close> codes of its candidates, or nothing.
\<close>

definition guessLanguage :: "ports \<Rightarrow> manager \<Rightarrow> string option \<Rightarrow> string option" where
  "guessLanguage P m utt =
     (case guess P utt (languages m) of
        None \<Rightarrow> None
      | Some [] \<Rightarrow> None
      | Some (alpha2 # _) \<Rightarrow> Some alpha2)"

text \<open>
  \<^verbatim>\<open>removeDocument\<close>, the mutation that does raise on a locale without a classifier
  (\<^verbatim>\<open>addDocument\<close> starts the same way).
\<close>

definition removeDocument ::
  "ports \<Rightarrow> manager \<Rightarrow> string option \<Rightarrow> string \<Rightarrow> string \<Rightarrow> error + manager" where
  "removeDocument P m srcLocale utt intnt =
     (let loc0 = truncatedLocale P srcLocale;
          loc = (if falsy loc0 then guessLanguage P m (Some utt) else loc0)
      in case loc of
           None \<Rightarrow> Inl LocaleMustBeDefined
         | Some l \<Rightarrow>
             if l = [] then Inl LocaleMustBeDefined
             else (case classifiers m l of
                     None \<Rightarrow> Inl (ClassifierNotFound l)
                   | Some c \<Rightarrow>
                       Inr (m\<lparr>classifiers := (classifiers m)(l \<mapsto> removeExample P c utt intnt)\<rparr>)))"

section \<open>The process pipeline\<close>

text \<open>
  \<^verbatim>\<open>classify\<close>. Without an utterance the first argument is the utterance and the locale is
  guessed. An absent truncated locale or a locale without a classifier gives
  \<^verbatim>\<open>undefined\<close>.
\<close>

definition classify ::
  "ports \<Rightarrow> manager \<Rightarrow> string option \<Rightarrow> string option \<Rightarrow> classification option" where
  "classify P m srcLocale srcUtterance =
     (let (utt, loc) =
            (if falsy srcUtterance then (srcLocale, guessLanguage P m srcLocale)
             else (srcUtterance, srcLocale))
      in case truncatedLocale P loc of
           None \<Rightarrow> None
         | Some truncated \<Rightarrow>
             (case classifiers m truncated of
                None \<Rightarrow> None
              | Some c \<Rightarrow> Some (getClassifications P c utt)))"

definition getSentiment :: "ports \<Rightarrow> manager \<Rightarrow> string option \<Rightarrow> string option \<Rightarrow> jsvalue" where
  "getSentiment P m srcLocale srcUtterance =
     (let (utt, loc) =
            (if falsy srcUtterance then (srcLocale, guessLanguage P m srcLocale)
             else (srcUtterance, srcLocale))
      in sentimentProcess P (truncatedLocale P loc) utt)"

text \<open>
  \<^verbatim>\<open>getAnswer\<close>: the port gives the \<^verbatim>\<open>response\<close> of the answer found, if any; a response
  that is falsy counts as none.
\<close>

definition getAnswer :: "ports \<Rightarrow> manager \<Rightarrow> string option \<Rightarrow> string \<Rightarrow> ctx \<Rightarrow> string option" where
  "getAnswer P m loc intnt context =
     (case findAnswer P (nlgManager m) loc intnt context of
        None \<Rightarrow> None
      | Some response \<Rightarrow> if response = [] then None else Some response)"

fun isEqualClassification :: "classification \<Rightarrow> bool" where
  "isEqualClassification [] = True"
| "isEqualClassification ((label, v) # rest) =
     (if v \<noteq> 0.5 then False else isEqualClassification rest)"

text \<open>The first lines of \<^verbatim>\<open>process\<close>: the utterance, the locale, and whether it was guessed.\<close>

definition registered :: "manager \<Rightarrow> string option \<Rightarrow> bool" where
  "registered m truncated = (case truncated of None \<Rightarrow> False | Some t \<Rightarrow> t \<in> set (languages m))"

definition firstLanguage :: "manager \<Rightarrow> string option" where
  "firstLanguage m = (case languages m of [] \<Rightarrow> None | l # _ \<Rightarrow> Some l)"

definition initialArgs ::
  "ports \<Rightarrow> manager \<Rightarrow> string option \<Rightarrow> string option \<Rightarrow> string option \<times> string option \<times> bool" where
  "initialArgs P m srcLocale srcUtterance =
     (if falsy srcUtterance then (srcLocale, guessLanguage P m srcLocale, True)
      else (srcUtterance, srcLocale, False))"

definition resolveLocale ::
  "ports \<Rightarrow> manager \<Rightarrow> string option \<Rightarrow> string option \<Rightarrow> string option \<times> string option \<times> bool" where
  "resolveLocale P m srcLocale srcUtterance =
     (let (utt, loc, languageGuessed) = initialArgs P m srcLocale srcUtterance
      in if \<not> registered m (truncatedLocale P loc) then
           (let g = guessLanguage P m utt
            in (utt, (if falsy g then firstLanguage m else g), True))
         else (utt, loc, languageGuessed))"

text \<open>
  The full search. \<open>scanStep\<close> is the body of both \<^verbatim>\<open>forEach\<close> loops over the languages;
  the pair is \<^verbatim>\<open>bestScore\<close> and \<^verbatim>\<open>bestClassification\<close>, both \<^verbatim>\<open>undefined\<close> at first.
\<close>

definition scanStep ::
  "ports \<Rightarrow> manager \<Rightarrow> string option \<Rightarrow> real option \<times> classification option \<Rightarrow> string \<Rightarrow>
   real option \<times> classification option" where
  "scanStep P m utt best lang =
     (case classify P m (Some lang) utt of
        None \<Rightarrow> best
      | Some [] \<Rightarrow> best
      | Some ((label, v) # rest) \<Rightarrow>
          (case fst best of
             None \<Rightarrow> (Some v, Some ((label, v) # rest))
           | Some bestScore \<Rightarrow>
               if v > bestScore then (Some v, Some ((label, v) # rest)) else best))"

definition fullSearch ::
  "ports \<Rightarrow> manager \<Rightarrow> string option \<Rightarrow> string option \<Rightarrow> classification option" where
  "fullSearch P m utt truncated =
     (let best1 = foldl (scanStep P m utt) (None, None) (languages m);
          optionalUtterance = generateEntityUtterance P (nerManager m) utt truncated;
          best2 = foldl (scanStep P m optionalUtterance) best1 (languages m)
      in snd best2)"

text \<open>
  The other branch. \<^verbatim>\<open>optionalClassification[0].value > result.classification[0].value\<close> is
  evaluated once the optional classification is known to have an entry; it reads
  \<^verbatim>\<open>result.classification[0].value\<close> unguarded, a TypeError when the classification of the
  utterance itself is \<^verbatim>\<open>undefined\<close> or empty.
\<close>

definition reclassify ::
  "ports \<Rightarrow> manager \<Rightarrow> string option \<Rightarrow> string option \<Rightarrow> error + classification option" where
  "reclassify P m utt truncated =
     (let c = classify P m truncated utt;
          optionalUtterance = generateEntityUtterance P (nerManager m) utt truncated
      in if optionalUtterance \<noteq> utt then
           (case classify P m truncated optionalUtterance of
              None \<Rightarrow> Inr c
            | Some [] \<Rightarrow> Inr c
            | Some ((olabel, ov) # orest) \<Rightarrow>
                (case c of
                   None \<Rightarrow> Inl TypeError
                 | Some [] \<Rightarrow> Inl TypeError
                 | Some ((label, v) # rest) \<Rightarrow>
                     if ov > v then Inr (Some ((olabel, ov) # orest)) else Inr c))
         else Inr c)"

text \<open>Intent, domain and score from the final classification.\<close>

definition outcome :: "manager \<Rightarrow> classification option \<Rightarrow> string \<times> string option \<times> real" where
  "outcome m c =
     (case c of
        None \<Rightarrow> (''None'', Some ''default'', 1)
      | Some [] \<Rightarrow> (''None'', Some ''default'', 1)
      | Some ((label, v) # rest) \<Rightarrow>
          if isEqualClassification ((label, v) # rest) then (''None'', Some ''default'', 1)
          else (label, intentDomains m label, v))"

text \<open>\<^verbatim>\<open>context[entity.entity] = entity.option || entity.utteranceText\<close>, for each entity.\<close>

definition mergeEntities :: "ctx \<Rightarrow> ner_entity list \<Rightarrow> ctx" where
  "mergeEntities context ents =
     foldl (\<lambda>cx e. cx(entity e \<mapsto>
                (case e_option e of
                   None \<Rightarrow> utteranceText e
                 | Some opt \<Rightarrow> if opt = [] then utteranceText e else opt)))
       context ents"

text \<open>The \<^verbatim>\<open>if\<close> of \<^verbatim>\<open>process\<close> that chooses \<^verbatim>\<open>result.classification\<close>.\<close>

definition chooseClassification ::
  "ports \<Rightarrow> manager \<Rightarrow> bool \<Rightarrow> string option \<Rightarrow> string option \<Rightarrow> error + classification option" where
  "chooseClassification P m languageGuessed utt truncated =
     (if languageGuessed \<and> fullSearchWhenGuessed (m_settings m) = Some True
      then Inr (fullSearch P m utt truncated)
      else reclassify P m utt truncated)"

text \<open>
  From the outcome mapping to the answer: the result as \<^verbatim>\<open>process\<close> has built it, and the
  context, when \<^verbatim>\<open>slotManager.process\<close> is called on them.
\<close>

definition assemble ::
  "ports \<Rightarrow> manager \<Rightarrow> ctx option \<Rightarrow> string option \<Rightarrow> string option \<Rightarrow> string option \<Rightarrow>
   classification option \<Rightarrow> result \<times> ctx" where
  "assemble P m srcContext loc truncated utt c =
     (let (intnt, dom, sc) = outcome m c;
          ents = findEntities P (nerManager m) utt truncated
                   (getIntentEntityNames P (slotManager m) intnt);
          context = mergeEntities (case srcContext of None \<Rightarrow> Map.empty | Some cx \<Rightarrow> cx) ents;
          sent = getSentiment P m truncated utt;
          ans = getAnswer P m truncated intnt context
      in (\<lparr>r_locale = loc, localeIso2 = truncated, r_language = languageName P truncated,
           utterance = utt, classification = c, intent = intnt, domain = dom, score = sc,
           entities = ents, sentiment = sent, srcAnswer = ans,
           answer = map_option (\<lambda>a. handlebars P a context) ans\<rparr>,
          context))"

text \<open>\<^verbatim>\<open>process\<close> up to there: it fails only where the classification is chosen.\<close>

definition beforeSlotFilling ::
  "ports \<Rightarrow> manager \<Rightarrow> string option \<Rightarrow> string option \<Rightarrow> ctx option \<Rightarrow> error + (result \<times> ctx)" where
  "beforeSlotFilling P m srcLocale srcUtterance srcContext =
     (let (utt, loc, languageGuessed) = resolveLocale P m srcLocale srcUtterance;
          truncated = truncatedLocale P loc
      in case chooseClassification P m languageGuessed utt truncated of
           Inl e \<Rightarrow> Inl e
         | Inr c \<Rightarrow> Inr (assemble P m srcContext loc truncated utt c))"

text \<open>
  The end of \<^verbatim>\<open>process\<close>: the slot manager, which may change the result and the context
  it is given and says whether it did, the answer rendered again if it did, and the
  transformer, whose value is returned.
\<close>

definition complete :: "ports \<Rightarrow> manager \<Rightarrow> result \<Rightarrow> ctx \<Rightarrow> result" where
  "complete P m r context =
     (let (changed, r1, context1) = slotProcess P (slotManager m) r context
      in processTransformer P
           (if changed then
              (let context2 = mergeEntities context1 (entities r1)
               in if falsy (srcAnswer r1) then r1
                  else r1\<lparr>answer := map_option (\<lambda>a. handlebars P a context2) (srcAnswer r1)\<rparr>)
            else r1))"

definition process ::
  "ports \<Rightarrow> manager \<Rightarrow> string option \<Rightarrow> string option \<Rightarrow> ctx option \<Rightarrow> error + result" where
  "process P m srcLocale srcUtterance srcContext =
     (case beforeSlotFilling P m srcLocale srcUtterance srcContext of
        Inl e \<Rightarrow> Inl e
      | Inr (r, context) \<Rightarrow> Inr (complete P m r context))"

section \<open>Properties stated about the model\<close>

text \<open>
  A dense row of \<open>n\<close> cells, each 0 or 1; it has no feature at column 0 when its first
  cell is not 1.
\<close>

definition denseCells :: "nat \<Rightarrow> row \<Rightarrow> bool" where
  "denseCells n feats = (length feats = n \<and> list_all (\<lambda>c. c = Some 0 \<or> c = Some 1) feats)"

definition noColumn0 :: "row \<Rightarrow> bool" where
  "noColumn0 feats = (case feats of [] \<Rightarrow> True | c # _ \<Rightarrow> c \<noteq> Some 1)"

definition denseObs :: "nat \<Rightarrow> (string \<times> matrix) list \<Rightarrow> bool" where
  "denseObs n obs =
     list_all (\<lambda>(label, mat). list_all (\<lambda>feats. denseCells n feats \<and> noColumn0 feats) mat) obs"

text \<open>
  A classifier whose \<^verbatim>\<open>features.length\<close> is the number of cells of each of its rows, all
  of them dense with no feature at column 0.
\<close>

definition denseClassifier :: "classifier \<Rightarrow> bool" where
  "denseClassifier c =
     (case zeroRow (features c) of
        Inl e \<Rightarrow> False
      | Inr zeros \<Rightarrow> denseObs (length zeros) (observations (logistic c)))"

text \<open>
  A manager as the registry builds it: no language twice, every language is its own
  truncation and is bound to a classifier made for it; the observations of a classifier,
  being the entries of an object, have no label twice; and a zero-filled row can be made
  from its features.
\<close>

definition wellFormed :: "ports \<Rightarrow> manager \<Rightarrow> bool" where
  "wellFormed P m =
     (distinct (languages m) \<and>
      list_all (\<lambda>l. getTruncatedLocale P l = l \<and>
                  (case classifiers m l of
                     None \<Rightarrow> False
                   | Some c \<Rightarrow>
                       language c = l \<and> distinct (map fst (observations (logistic c))) \<and>
                       (case zeroRow (features c) of Inl e \<Rightarrow> False | Inr zeros \<Rightarrow> True)))
        (languages m))"

text \<open>A classifier that a manager binds to one of the given languages was made for it.\<close>

definition keyedOn :: "string list \<Rightarrow> manager \<Rightarrow> bool" where
  "keyedOn ls t =
     list_all (\<lambda>l. case classifiers t l of None \<Rightarrow> True | Some c \<Rightarrow> language c = l) ls"

text \<open>The classifiers of a manager once \<^verbatim>\<open>export\<close> has walked the languages \<open>ls\<close>.\<close>

definition exported :: "string list \<Rightarrow> (string \<rightharpoonup> classifier) \<Rightarrow> (string \<rightharpoonup> classifier)" where
  "exported ls cs = (\<lambda>k. if k \<in> set ls then map_option exportClassifier (cs k) else cs k)"

text \<open>The step of the loop of \<open>denseRow\<close>.\<close>

definition mark :: "row \<Rightarrow> cell \<Rightarrow> row" where
  "mark feats featPosition = (case featPosition of None \<Rightarrow> feats | Some p \<Rightarrow> setFeature feats p)"

text \<open>
  The top score of a classification, if it has one, and how it compares with a score.
\<close>

definition topScore :: "classification option \<Rightarrow> real option" where
  "topScore c = (case c of None \<Rightarrow> None | Some [] \<Rightarrow> None | Some ((label, v) # rest) \<Rightarrow> Some v)"

definition below :: "real \<Rightarrow> classification option \<Rightarrow> bool" where
  "below b c = (case topScore c of None \<Rightarrow> True | Some v \<Rightarrow> v < b)"

definition notAbove :: "real \<Rightarrow> classification option \<Rightarrow> bool" where
  "notAbove b c = (case topScore c of None \<Rightarrow> True | Some v \<Rightarrow> v \<le> b)"

definition exceeds :: "classification option \<Rightarrow> classification option \<Rightarrow> bool" where
  "exceeds c c' =
     (case topScore c of
        None \<Rightarrow> False
      | Some v \<Rightarrow> (case topScore c' of None \<Rightarrow> False | Some v' \<Rightarrow> v > v'))"

text \<open>The running best of a scan has no score yet, or one strictly under \<open>b\<close>.\<close>

definition under :: "real \<Rightarrow> real option \<times> classification option \<Rightarrow> bool" where
  "under b best = (case fst best of None \<Rightarrow> True | Some v \<Rightarrow> v < b)"

text \<open>
  A classification is degenerate when it is absent, empty, or every score in it is
  exactly 0.5.
\<close>

definition degenerate :: "classification option \<Rightarrow> bool" where
  "degenerate c = (case c of None \<Rightarrow> True | Some cl \<Rightarrow> list_all (\<lambda>(label, v). v = 0.5) cl)"

text \<open>
  A call on which the slot manager reports no change and hands the result back as it
  got it, and the transformer returns the result as it is (as the default transformer
  \<^verbatim>\<open>_ => _\<close> does).
\<close>

definition untouched :: "ports \<Rightarrow> manager \<Rightarrow> result \<Rightarrow> ctx \<Rightarrow> bool" where
  "untouched P m r context =
     (case slotProcess P (slotManager m) r context of
        (changed, r1, context1) \<Rightarrow> \<not> changed \<and> r1 = r \<and> processTransformer P r = r)"

section \<open>Example collaborators and managers\<close>

definition exLrc :: lrc where
  "exLrc = \<lparr>observations = [], labels = JArr [], classifications = JArr [],
            observationCount = JNum 0, theta = JArr []\<rparr>"

definition exPorts :: ports where
  "exPorts =
     \<lparr>getTruncatedLocale = take 2,
      guess = (\<lambda>utt ls. None),
      languageName = (\<lambda>l. None),
      blankClassifier = \<lparr>language = [], docs = JArr [], features = JObj [], logistic = exLrc\<rparr>,
      getClassifications = (\<lambda>c utt. []),
      trainClassifier = (\<lambda>c. Inr c),
      removeExample = (\<lambda>c utt intnt. c),
      newNerManager = (\<lambda>s. JNull),
      nerLoad = (\<lambda>n x. x),
      nerSave = (\<lambda>n. n),
      generateEntityUtterance = (\<lambda>n utt l. utt),
      findEntities = (\<lambda>n utt l whitelist. []),
      newSlotManager = JNull,
      slotClear = (\<lambda>s. JNull),
      slotLoad = (\<lambda>s x. x),
      slotSave = (\<lambda>s. s),
      getIntentEntityNames = (\<lambda>s intnt. []),
      slotProcess = (\<lambda>s r cx. (False, r, cx)),
      newNlgManager = JObj [],
      findAnswer = (\<lambda>n l intnt cx. None),
      sentimentProcess = (\<lambda>l utt. JNull),
      handlebars = (\<lambda>a cx. a),
      processTransformer = (\<lambda>r. r)\<rparr>"

text \<open>
  Collaborators whose classifier scores an utterance by the language it was made for, and
  whose NER manager rewrites an utterance as given.
\<close>

definition scoringPorts ::
  "(string \<Rightarrow> string option \<Rightarrow> classification) \<Rightarrow> (string option \<Rightarrow> string option) \<Rightarrow> ports" where
  "scoringPorts f sub =
     exPorts\<lparr>getClassifications := (\<lambda>c utt. f (language c) utt),
             generateEntityUtterance := (\<lambda>n utt l. sub utt)\<rparr>"

text \<open>
  The same, with a slot manager that redirects the intent of every result to a slot
  elicitation and says that it changed the result.
\<close>

definition elicitingPorts ::
  "(string \<Rightarrow> string option \<Rightarrow> classification) \<Rightarrow> (string option \<Rightarrow> string option) \<Rightarrow> ports" where
  "elicitingPorts f sub =
     (scoringPorts f sub)\<lparr>slotProcess := (\<lambda>s r cx. (True, r\<lparr>intent := ''slot.elicit''\<rparr>, cx))\<rparr>"

text \<open>Score tables for the examples: by language and utterance.\<close>

definition orderScores :: "string \<Rightarrow> string option \<Rightarrow> classification" where
  "orderScores lang utt = (if utt = Some ''i want %food%'' then [(''order'', 0.8)] else [])"

definition foodSubstitution :: "string option \<Rightarrow> string option" where
  "foodSubstitution utt = Some ''i want %food%''"

definition pizzaScores :: "string \<Rightarrow> string option \<Rightarrow> classification" where
  "pizzaScores lang utt =
     (if lang = ''en'' then (if utt = Some ''%food%'' then [(''order'', 0.9)] else [(''greet'', 0.6)])
      else [(''saludo'', 0.7)])"

definition pizzaSubstitution :: "string option \<Rightarrow> string option" where
  "pizzaSubstitution utt = Some ''%food%''"

definition holaScores :: "string \<Rightarrow> string option \<Rightarrow> classification" where
  "holaScores lang utt = (if lang = ''es'' then [(''saludo'', 0.7)] else [(''greet'', 0.6)])"

definition exSettings :: settings where
  "exSettings = \<lparr>s_languages = None, fullSearchWhenGuessed = None, useNlg = None, ner = JNull\<rparr>"

definition emptyManager :: manager where
  "emptyManager = newManager exPorts exSettings"

definition twoLocales :: manager where
  "twoLocales = addLanguage exPorts emptyManager (Several [''en'', ''es''])"

text \<open>
  A manager with one trained language: three features, held as an array, and one
  observation of the intent \<^verbatim>\<open>greet\<close> in which the second and the third feature are
  present.
\<close>

definition greetClassifier :: classifier where
  "greetClassifier =
     \<lparr>language = ''en'', docs = JArr [],
      features = JArr [JStr ''hello'', JStr ''good'', JStr ''day''],
      logistic = exLrc\<lparr>observations := [(''greet'', [[Some 0, Some 1, Some 1]])]\<rparr>\<rparr>"

definition trainedManager :: manager where
  "trainedManager =
     emptyManager\<lparr>languages := [''en''],
                  classifiers := [''en'' \<mapsto> greetClassifier],
                  intentDomains := [''greet'' \<mapsto> ''default'']\<rparr>"

text \<open>
  A manager whose classifier counts its three features by name, in an object, with two
  observations of the intent \<^verbatim>\<open>reserve\<close>: one with only the second feature, one with
  only the third.
\<close>

definition reserveClassifier :: classifier where
  "reserveClassifier =
     \<lparr>language = ''en'', docs = JArr [],
      features = JObj [(''book'', JNum 1), (''flight'', JNum 1), (''table'', JNum 1)],
      logistic = exLrc\<lparr>observations :=
                        [(''reserve'', [[Some 0, Some 1, Some 0], [Some 0, Some 0, Some 1]])]\<rparr>\<rparr>"

definition reserveManager :: manager where
  "reserveManager =
     emptyManager\<lparr>languages := [''en''],
                  classifiers := [''en'' \<mapsto> reserveClassifier],
                  intentDomains := [''reserve'' \<mapsto> ''default'']\<rparr>"

text \<open>An export, and the exported model imported into another manager.\<close>

definition exportImport :: "ports \<Rightarrow> manager \<Rightarrow> manager \<Rightarrow> error + manager" where
  "exportImport P m t =
     (case export P m of Inl e \<Rightarrow> Inl e | Inr (clone, m') \<Rightarrow> import P t clone)"

text \<open>Score tables for an utterance about a flight and its entity-substituted variant.\<close>

definition flightScores :: "string \<Rightarrow> string option \<Rightarrow> classification" where
  "flightScores lang utt = (if utt = Some ''fly to %city%'' then [(''travel'', 0.9)] else [])"

definition citySubstitution :: "string option \<Rightarrow> string option" where
  "citySubstitution utt = Some ''fly to %city%''"

text \<open>Two exports in a row, with the model each one gives.\<close>

definition exportTwice :: "ports \<Rightarrow> manager \<Rightarrow> error + (persisted \<times> persisted)" where
  "exportTwice P m =
     (case export P m of
        Inl e \<Rightarrow> Inl e
      | Inr (clone, m') \<Rightarrow>
          (case export P m' of Inl e \<Rightarrow> Inl e | Inr (clone', m'') \<Rightarrow> Inr (clone, clone')))"

section \<open>The codec: sparse and dense rows\<close>

lemma zip_upt_nth: "zip xs [0..<length xs] = map (\<lambda>i. (xs ! i, i)) [0..<length xs]"
  by (rule nth_equalityI) auto

lemma truthy_simps: "truthy None = False" "truthy (Some k) = (k \<noteq> 0)"
  by (simp_all add: truthy_def)

lemma filter_truthy_positions:
  "filter truthy (map (\<lambda>i. if Q i then Some i else None) xs) =
   map Some (filter (\<lambda>i. Q i \<and> i \<noteq> 0) xs)"
  by (induction xs) (simp_all add: truthy_simps)

lemma sparseRow_filter:
  "sparseRow feats = map Some (filter (\<lambda>i. feats ! i = Some 1 \<and> i \<noteq> 0) [0..<length feats])"
  unfolding sparseRow_def positions_def zip_upt_nth
  by (simp add: o_def filter_truthy_positions)

lemma length_setFeature: "length (setFeature f p) = max (length f) (Suc p)"
  by (auto simp: setFeature_def)

lemma nth_setFeature:
  "i < max (length f) (Suc p) \<Longrightarrow>
   setFeature f p ! i = (if i = p then Some 1 else if i < length f then f ! i else None)"
  by (auto simp: setFeature_def nth_append)

lemma mark_simps: "mark feats None = feats" "mark feats (Some p) = setFeature feats p"
  by (simp_all add: mark_def)

lemma length_mark_ge: "length feats \<le> length (mark feats c)"
  by (auto simp: mark_def length_setFeature split: option.splits)

lemma length_foldl_mark_ge: "length acc \<le> length (foldl mark acc r)"
proof (induction r arbitrary: acc)
  case (Cons c r)
  have "length acc \<le> length (mark acc c)" by (rule length_mark_ge)
  also have "\<dots> \<le> length (foldl mark (mark acc c) r)" by (rule Cons.IH)
  finally show ?case by simp
qed simp

lemma foldl_mark_covers: "Some p \<in> set r \<Longrightarrow> p < length (foldl mark acc r)"
proof (induction r arbitrary: acc)
  case (Cons c r)
  show ?case
  proof (cases "c = Some p")
    case True
    have "p < length (mark acc c)" using True by (simp add: mark_def length_setFeature)
    also have "\<dots> \<le> length (foldl mark (mark acc c) r)" by (rule length_foldl_mark_ge)
    finally show ?thesis by simp
  next
    case False
    with Cons.prems have "Some p \<in> set r" by simp
    then show ?thesis using Cons.IH by simp
  qed
qed simp

lemma nth_foldl_mark:
  "i < length (foldl mark acc r) \<Longrightarrow>
   foldl mark acc r ! i =
     (if Some i \<in> set r then Some 1 else if i < length acc then acc ! i else None)"
proof (induction r arbitrary: acc)
  case Nil
  then show ?case by simp
next
  case (Cons c r)
  let ?a = "mark acc c"
  have step: "foldl mark ?a r ! i =
     (if Some i \<in> set r then Some 1 else if i < length ?a then ?a ! i else None)"
    using Cons.IH [of ?a] Cons.prems by simp
  show ?case
  proof (cases c)
    case None
    then show ?thesis using step by (simp add: mark_simps)
  next
    case (Some p)
    then show ?thesis using step Cons.prems
      by (auto simp: mark_simps length_setFeature nth_setFeature)
  qed
qed

lemma length_foldl_mark_inside:
  "(\<forall>p. Some p \<in> set r \<longrightarrow> p < length acc) \<Longrightarrow> length (foldl mark acc r) = length acc"
proof (induction r arbitrary: acc)
  case (Cons c r)
  have l: "length (mark acc c) = length acc"
    using Cons.prems by (cases c) (auto simp: mark_def length_setFeature)
  show ?case using Cons.IH [of "mark acc c"] Cons.prems l by simp
qed simp

lemma denseRow_mark: "denseRow zeros r = foldl mark zeros r"
  by (simp add: denseRow_def mark_def [abs_def])

lemma filter_upt_sorted:
  assumes "sorted ps" "distinct ps" "\<forall>p\<in>set ps. p < L \<and> Q p" "\<forall>i<L. Q i \<longrightarrow> i \<in> set ps"
  shows "filter Q [0..<L] = ps"
proof (rule sorted_distinct_set_unique)
  show "set (filter Q [0..<L]) = set ps" using assms by auto
  show "sorted (filter Q [0..<L])" by (rule sorted_wrt_filter) simp
  show "distinct (filter Q [0..<L])" by simp
qed (use assms in simp_all)

lemma sparseRow_denseRow:
  assumes "sorted ps" "distinct ps" "0 \<notin> set ps"
  shows "sparseRow (denseRow (replicate n (Some 0)) (map Some ps)) = map Some ps"
proof -
  let ?d = "denseRow (replicate n (Some 0)) (map Some ps)"
  have cov: "\<And>p. p \<in> set ps \<Longrightarrow> p < length ?d"
    unfolding denseRow_mark by (rule foldl_mark_covers) simp
  have nth: "\<And>i. i < length ?d \<Longrightarrow> (?d ! i = Some 1) = (i \<in> set ps)"
    unfolding denseRow_mark by (subst nth_foldl_mark) auto
  have pos: "\<And>p. p \<in> set ps \<Longrightarrow> p \<noteq> 0" using assms(3) by metis
  have "filter (\<lambda>i. ?d ! i = Some 1 \<and> i \<noteq> 0) [0..<length ?d] = ps"
  proof (rule filter_upt_sorted)
    show "\<forall>p\<in>set ps. p < length ?d \<and> (?d ! p = Some 1 \<and> p \<noteq> 0)"
      using cov nth pos by simp
    show "\<forall>i<length ?d. ?d ! i = Some 1 \<and> i \<noteq> 0 \<longrightarrow> i \<in> set ps"
      using nth by simp
  qed (use assms in simp_all)
  then show ?thesis by (simp add: sparseRow_filter)
qed

lemma sparseRow_round_trip:
  "sparseRow (denseRow (replicate n (Some 0)) (sparseRow feats)) = sparseRow feats"
proof -
  let ?ps = "filter (\<lambda>i. feats ! i = Some 1 \<and> i \<noteq> 0) [0..<length feats]"
  have "sparseRow (denseRow (replicate n (Some 0)) (map Some ?ps)) = map Some ?ps"
    by (rule sparseRow_denseRow) (auto simp: sorted_wrt_filter)
  then show ?thesis by (simp add: sparseRow_filter)
qed

lemma denseRow_sparseRow:
  assumes "denseCells n feats" "noColumn0 feats"
  shows "denseRow (replicate n (Some 0)) (sparseRow feats) = feats"
proof (rule nth_equalityI)
  have len: "length feats = n" using assms by (simp add: denseCells_def)
  have inside: "\<forall>p. Some p \<in> set (sparseRow feats) \<longrightarrow> p < length (replicate n (Some (0::nat)))"
    by (auto simp: sparseRow_filter len)
  show l: "length (denseRow (replicate n (Some 0)) (sparseRow feats)) = length feats"
    unfolding denseRow_mark using length_foldl_mark_inside [OF inside] len by simp
  fix i assume "i < length (denseRow (replicate n (Some 0)) (sparseRow feats))"
  then have i: "i < n" using l len by simp
  have cell: "feats ! i = Some 0 \<or> feats ! i = Some 1"
    using assms(1) i len by (auto simp: denseCells_def list_all_length)
  have zero: "i \<noteq> 0 \<or> feats ! i \<noteq> Some 1"
    using assms(2) i len by (cases feats) (auto simp: noColumn0_def)
  have "denseRow (replicate n (Some 0)) (sparseRow feats) ! i =
      (if Some i \<in> set (sparseRow feats) then Some 1 else Some 0)"
    unfolding denseRow_mark using i l [unfolded denseRow_mark] len
    by (subst nth_foldl_mark) auto
  also have "\<dots> = feats ! i"
    using cell zero i len by (auto simp: sparseRow_filter)
  finally show "denseRow (replicate n (Some 0)) (sparseRow feats) ! i = feats ! i" .
qed

lemma update_fresh: "k \<notin> fst ` set acc \<Longrightarrow> AList.update k v acc = acc @ [(k, v)]"
  by (induction acc) auto

lemma zeroRow_replicate: "zeroRow feats = Inr zeros \<Longrightarrow> zeros = replicate (length zeros) (Some 0)"
  by (auto simp: zeroRow_def zeroFilled_def replicate_length_same
      split: sum.splits option.splits jsvalue.splits if_splits)

lemma denseMatrix_map:
  "zeroRow feats = Inr zeros \<Longrightarrow> denseMatrix feats mat = Inr (map (denseRow zeros) mat)"
  by (induction mat) simp_all

lemma denseObservations_map:
  "zeroRow feats = Inr zeros \<Longrightarrow> distinct (map fst obs) \<Longrightarrow>
   fst ` set acc \<inter> fst ` set obs = {} \<Longrightarrow>
   denseObservations feats acc obs =
     Inr (acc @ map (\<lambda>(label, mat). (label, map (denseRow zeros) mat)) obs)"
proof (induction obs arbitrary: acc)
  case Nil
  then show ?case by simp
next
  case (Cons e obs)
  obtain k mat where e: "e = (k, mat)" by (cases e)
  have fresh: "k \<notin> fst ` set acc" using Cons.prems(3) e by auto
  have disj: "fst ` set (acc @ [(k, map (denseRow zeros) mat)]) \<inter> fst ` set obs = {}"
    using Cons.prems(2,3) e by auto
  have d: "distinct (map fst obs)" using Cons.prems(2) by simp
  show ?case
    using Cons.IH [OF Cons.prems(1) d disj]
    by (simp add: e denseMatrix_map [OF Cons.prems(1)] update_fresh [OF fresh])
qed

lemma fst_sparseObservations: "map fst (sparseObservations obs) = map fst obs"
  by (simp add: sparseObservations_def o_def split_def)

lemma importClassifier_decoded:
  assumes "zeroRow (features cc) = Inr zeros" "distinct (map fst (observations (logistic cc)))"
  shows "importClassifier c cc =
     Inr (c\<lparr>docs := docs cc, features := features cc,
            logistic := (logistic cc)\<lparr>observations :=
              map (\<lambda>(label, mat). (label, map (denseRow zeros) mat)) (observations (logistic cc))\<rparr>\<rparr>)"
  using denseObservations_map [OF assms, of "[]"]
  by (simp add: importClassifier_def)

lemma exportClassifier_simps:
  "language (exportClassifier c) = language c"
  "features (exportClassifier c) = features c"
  "map fst (observations (logistic (exportClassifier c))) = map fst (observations (logistic c))"
  by (simp_all add: exportClassifier_def fst_sparseObservations)

lemma exportClassifier_round_trip:
  assumes "zeroRow (features c) = Inr zeros" "distinct (map fst (observations (logistic c)))"
    "language c0 = language c"
  shows "\<exists>c'. importClassifier c0 (exportClassifier c) = Inr c' \<and> language c' = language c \<and>
           exportClassifier c' = exportClassifier c"
proof -
  obtain n where z: "zeros = replicate n (Some 0)" using zeroRow_replicate [OF assms(1)] by blast
  have "importClassifier c0 (exportClassifier c) =
     Inr (c0\<lparr>docs := docs (exportClassifier c), features := features (exportClassifier c),
            logistic := (logistic (exportClassifier c))\<lparr>observations :=
              map (\<lambda>(label, mat). (label, map (denseRow zeros) mat))
                (observations (logistic (exportClassifier c)))\<rparr>\<rparr>)"
    by (rule importClassifier_decoded) (simp_all add: exportClassifier_simps assms)
  then show ?thesis
    using assms(3)
    by (simp add: exportClassifier_def sparseObservations_def o_def split_def z sparseRow_round_trip)
qed

lemma importClassifier_exportClassifier:
  assumes "distinct (map fst (observations (logistic c)))" "language c0 = language c"
    "denseClassifier c"
  shows "importClassifier c0 (exportClassifier c) = Inr c"
proof -
  from assms(3) obtain zeros where zr: "zeroRow (features c) = Inr zeros"
    and d: "denseObs (length zeros) (observations (logistic c))"
    by (auto simp: denseClassifier_def split: sum.splits)
  have z: "zeros = replicate (length zeros) (Some 0)" by (rule zeroRow_replicate [OF zr])
  have restore: "\<And>e. e \<in> set (observations (logistic c)) \<Longrightarrow>
      (case e of (label, mat) \<Rightarrow> (label, map (\<lambda>feats. denseRow zeros (sparseRow feats)) mat)) = e"
  proof -
    fix e assume e: "e \<in> set (observations (logistic c))"
    obtain k mat where km: "e = (k, mat)" by (cases e)
    have "\<forall>feats\<in>set mat. denseCells (length zeros) feats \<and> noColumn0 feats"
      using d e km by (auto simp: denseObs_def list_all_iff)
    then have "map (\<lambda>feats. denseRow zeros (sparseRow feats)) mat = mat"
      by (subst z) (simp add: denseRow_sparseRow map_idI)
    then show "(case e of (label, mat) \<Rightarrow> (label, map (\<lambda>feats. denseRow zeros (sparseRow feats)) mat)) = e"
      by (simp add: km)
  qed
  have obs: "map (\<lambda>(label, mat). (label, map (denseRow zeros) mat))
      (observations (logistic (exportClassifier c))) = observations (logistic c)"
  proof -
    have "map (\<lambda>(label, mat). (label, map (denseRow zeros) mat))
        (observations (logistic (exportClassifier c))) =
      map (\<lambda>(label, mat). (label, map (\<lambda>feats. denseRow zeros (sparseRow feats)) mat))
        (observations (logistic c))"
      by (simp add: exportClassifier_def sparseObservations_def o_def split_def)
    also have "\<dots> = map (\<lambda>e. e) (observations (logistic c))"
      by (rule map_cong [OF refl]) (rule restore)
    finally show ?thesis by simp
  qed
  have "importClassifier c0 (exportClassifier c) =
     Inr (c0\<lparr>docs := docs (exportClassifier c), features := features (exportClassifier c),
            logistic := (logistic (exportClassifier c))\<lparr>observations :=
              map (\<lambda>(label, mat). (label, map (denseRow zeros) mat))
                (observations (logistic (exportClassifier c)))\<rparr>\<rparr>)"
    by (rule importClassifier_decoded) (simp_all add: exportClassifier_simps assms zr)
  then show ?thesis
    unfolding obs using assms(2) by (simp add: exportClassifier_def)
qed

lemma exportLoop_distinct:
  "distinct ls \<Longrightarrow> \<forall>l\<in>set ls. classifiers m l \<noteq> None \<Longrightarrow>
   exportLoop m ls = Inr (m\<lparr>classifiers := exported ls (classifiers m)\<rparr>)"
proof (induction ls arbitrary: m)
  case Nil
  then show ?case by (simp add: exported_def)
next
  case (Cons l ls)
  from Cons.prems obtain c where c: "classifiers m l = Some c" by auto
  define m2 where "m2 = m\<lparr>classifiers := (classifiers m)(l \<mapsto> exportClassifier c)\<rparr>"
  have cs2: "classifiers m2 = (classifiers m)(l \<mapsto> exportClassifier c)"
    by (simp add: m2_def)
  have bound: "\<forall>k\<in>set ls. classifiers m2 k \<noteq> None" using Cons.prems by (auto simp: cs2)
  have step: "exportLoop m (l # ls) = exportLoop m2 ls" using c by (simp add: m2_def)
  have ih: "exportLoop m2 ls = Inr (m2\<lparr>classifiers := exported ls (classifiers m2)\<rparr>)"
    using Cons.IH [of m2] Cons.prems(1) bound by simp
  have eq: "exported ls (classifiers m2) = exported (l # ls) (classifiers m)"
    using Cons.prems(1) c by (auto simp: exported_def fun_eq_iff cs2)
  have "m2\<lparr>classifiers := exported ls (classifiers m2)\<rparr> =
        m\<lparr>classifiers := exported (l # ls) (classifiers m)\<rparr>"
    unfolding eq by (simp add: m2_def)
  then show ?case using step ih by simp
qed

lemma map_filter_total: "\<forall>l\<in>set ls. f l = Some (g l) \<Longrightarrow> List.map_filter f ls = map g ls"
  by (induction ls) (simp_all add: List.map_filter_simps)

lemma addLanguage_registered:
  assumes "getTruncatedLocale P l = l" "l \<in> set (languages m)"
  shows "addLanguage P m (One l) =
     (case classifiers m l of
        None \<Rightarrow> m\<lparr>classifiers := (classifiers m)(l \<mapsto> newNlpClassifier P l)\<rparr>
      | Some c \<Rightarrow> m)"
  using assms by (simp add: addLanguage_def localesOf_def addLocale_def)

lemma addLanguage_registered_props:
  assumes "getTruncatedLocale P l = l" "l \<in> set (languages m)"
    and "\<forall>c. classifiers m l = Some c \<longrightarrow> language c = l"
  shows "\<exists>c0. classifiers (addLanguage P m (One l)) l = Some c0 \<and> language c0 = l \<and>
          addLanguage P m (One l) = m\<lparr>classifiers := classifiers (addLanguage P m (One l))\<rparr> \<and>
          (\<forall>k. k \<noteq> l \<longrightarrow> classifiers (addLanguage P m (One l)) k = classifiers m k)"
proof (cases "classifiers m l")
  case None
  have "addLanguage P m (One l) = m\<lparr>classifiers := (classifiers m)(l \<mapsto> newNlpClassifier P l)\<rparr>"
    by (simp add: addLanguage_registered [OF assms(1,2)] None)
  then show ?thesis by (simp add: newNlpClassifier_def)
next
  case (Some c)
  have "addLanguage P m (One l) = m"
    by (simp add: addLanguage_registered [OF assms(1,2)] Some)
  then show ?thesis using Some assms(3) by simp
qed

lemma keyedOnD:
  assumes "keyedOn ls t" "l \<in> set ls" "classifiers t l = Some c"
  shows "language c = l"
  using assms by (auto simp: keyedOn_def list_all_iff split: option.splits)

lemma export_wellFormed:
  assumes ds: "distinct (languages m)"
    and bound: "\<forall>l\<in>set (languages m). classifiers m l = Some (c l)"
  shows "export P m =
     Inr (\<lparr>p_settings = m_settings m, p_languages = languages m,
           p_intentDomains = Some (intentDomains m),
           p_nerManager = nerSave P (nerManager m),
           p_slotManager = slotSave P (slotManager m),
           p_responses = nlgManager m,
           p_classifiers = map (\<lambda>l. exportClassifier (c l)) (languages m)\<rparr>,
          m\<lparr>classifiers := exported (languages m) (classifiers m)\<rparr>)"
proof -
  have b: "\<forall>l\<in>set (languages m). classifiers m l \<noteq> None" using bound by simp
  have loop: "exportLoop m (languages m) =
      Inr (m\<lparr>classifiers := exported (languages m) (classifiers m)\<rparr>)"
    by (rule exportLoop_distinct [OF ds b])
  have "List.map_filter (exported (languages m) (classifiers m)) (languages m) =
      map (\<lambda>l. exportClassifier (c l)) (languages m)"
    by (rule map_filter_total) (simp add: exported_def bound)
  then show ?thesis by (simp add: export_def loop)
qed

lemma importLoop_registered:
  assumes "distinct (map language ccs)"
    and "\<forall>cc\<in>set ccs. language cc \<in> set (languages m) \<and>
           getTruncatedLocale P (language cc) = language cc"
    and "\<forall>cc\<in>set ccs. \<forall>c. classifiers m (language cc) = Some c \<longrightarrow> language c = language cc"
    and "\<forall>cc\<in>set ccs. \<forall>c. \<exists>c'. importClassifier c cc = Inr c' \<and> language c' = language c"
  shows "\<exists>cs'. importLoop P m ccs = Inr (m\<lparr>classifiers := cs'\<rparr>) \<and>
           (\<forall>cc\<in>set ccs. \<exists>c0. language c0 = language cc \<and>
               map_option Inr (cs' (language cc)) = Some (importClassifier c0 cc)) \<and>
           (\<forall>k. k \<notin> language ` set ccs \<longrightarrow> cs' k = classifiers m k)"
  using assms
proof (induction ccs arbitrary: m)
  case Nil
  have "importLoop P m [] = Inr (m\<lparr>classifiers := classifiers m\<rparr>)" by simp
  then show ?case by (intro exI [of _ "classifiers m"]) simp
next
  case (Cons cc ccs)
  let ?l = "language cc"
  define m1 where "m1 = addLanguage P m (One ?l)"
  have reg1: "getTruncatedLocale P ?l = ?l" using Cons.prems(2) by simp
  have reg2: "?l \<in> set (languages m)" using Cons.prems(2) by simp
  have reg3: "\<forall>c. classifiers m ?l = Some c \<longrightarrow> language c = ?l"
    using Cons.prems(3) by (meson list.set_intros(1))
  from addLanguage_registered_props [OF reg1 reg2 reg3]
  obtain c0 where c0: "classifiers m1 ?l = Some c0" and c0l: "language c0 = ?l"
    and m1': "m1 = m\<lparr>classifiers := classifiers m1\<rparr>"
    and other: "\<forall>k. k \<noteq> ?l \<longrightarrow> classifiers m1 k = classifiers m k"
    unfolding m1_def [symmetric] by (elim exE conjE)
  from Cons.prems(4) obtain c' where c': "importClassifier c0 cc = Inr c'"
    and c'l: "language c' = language c0"
    by (meson list.set_intros(1))
  define m2 where "m2 = m1\<lparr>classifiers := (classifiers m1)(?l \<mapsto> c')\<rparr>"
  have cs2: "classifiers m2 = (classifiers m1)(?l \<mapsto> c')"
    by (simp add: m2_def)
  have m2': "m2 = m\<lparr>classifiers := classifiers m2\<rparr>"
    unfolding m2_def by (subst m1') simp
  have langs: "languages m2 = languages m" by (subst m2') simp
  have fresh: "?l \<notin> language ` set ccs" using Cons.prems(1) by simp
  have step: "importLoop P m (cc # ccs) = importLoop P m2 ccs"
    using c0 c' by (simp add: m1_def [symmetric] m2_def)
  have p1: "distinct (map language ccs)" using Cons.prems(1) by simp
  have p2: "\<forall>x\<in>set ccs. language x \<in> set (languages m2) \<and>
           getTruncatedLocale P (language x) = language x"
    using Cons.prems(2) langs by simp
  have p3: "\<forall>x\<in>set ccs. \<forall>c. classifiers m2 (language x) = Some c \<longrightarrow> language c = language x"
  proof (intro ballI allI impI)
    fix x c assume x: "x \<in> set ccs" and c: "classifiers m2 (language x) = Some c"
    have ne: "language x \<noteq> ?l" using fresh x by (metis image_eqI)
    then have "classifiers m (language x) = Some c" using c other by (simp add: cs2)
    then show "language c = language x" using Cons.prems(3) x by (meson list.set_intros(2))
  qed
  have p4: "\<forall>x\<in>set ccs. \<forall>c. \<exists>c'. importClassifier c x = Inr c' \<and> language c' = language c"
    using Cons.prems(4) by (meson list.set_intros(2))
  from Cons.IH [OF p1 p2 p3 p4]
  obtain cs' where cs': "importLoop P m2 ccs = Inr (m2\<lparr>classifiers := cs'\<rparr>)"
    and rest: "\<forall>x\<in>set ccs. \<exists>c0. language c0 = language x \<and>
               map_option Inr (cs' (language x)) = Some (importClassifier c0 x)"
    and frame: "\<forall>k. k \<notin> language ` set ccs \<longrightarrow> cs' k = classifiers m2 k"
    by (elim exE conjE)
  have keep: "map_option Inr (cs' ?l) = Some (importClassifier c0 cc)"
    using frame fresh c' by (simp add: cs2)
  have eq: "m2\<lparr>classifiers := cs'\<rparr> = m\<lparr>classifiers := cs'\<rparr>"
    by (subst m2') simp
  have a: "importLoop P m (cc # ccs) = Inr (m\<lparr>classifiers := cs'\<rparr>)"
    using step cs' eq by simp
  have b: "\<forall>x\<in>set (cc # ccs). \<exists>c0. language c0 = language x \<and>
               map_option Inr (cs' (language x)) = Some (importClassifier c0 x)"
    using rest keep c0l by simp blast
  have c: "\<forall>k. k \<notin> language ` set (cc # ccs) \<longrightarrow> cs' k = classifiers m k"
  proof (intro allI impI)
    fix k assume k: "k \<notin> language ` set (cc # ccs)"
    then have "k \<noteq> ?l" "k \<notin> language ` set ccs" by simp_all
    then show "cs' k = classifiers m k" using frame other by (simp add: cs2)
  qed
  show ?case using a b c by (intro exI [of _ cs'] conjI)
qed

lemma wellFormedD:
  assumes "wellFormed P m" "l \<in> set (languages m)"
  shows "getTruncatedLocale P l = l"
    and "classifiers m l = Some (the (classifiers m l))"
    and "language (the (classifiers m l)) = l"
    and "distinct (map fst (observations (logistic (the (classifiers m l)))))"
    and "\<exists>zeros. zeroRow (features (the (classifiers m l))) = Inr zeros"
proof -
  from assms have all: "getTruncatedLocale P l = l \<and>
      (case classifiers m l of
         None \<Rightarrow> False
       | Some c \<Rightarrow>
           language c = l \<and> distinct (map fst (observations (logistic c))) \<and>
           (case zeroRow (features c) of Inl e \<Rightarrow> False | Inr zeros \<Rightarrow> True))"
    by (simp add: wellFormed_def list_all_iff)
  then show "getTruncatedLocale P l = l" by simp
  from all obtain c where c: "classifiers m l = Some c" "language c = l"
    "distinct (map fst (observations (logistic c)))"
    and z: "case zeroRow (features c) of Inl e \<Rightarrow> False | Inr zeros \<Rightarrow> True"
    by (cases "classifiers m l") auto
  show "classifiers m l = Some (the (classifiers m l))" using c by simp
  show "language (the (classifiers m l)) = l" using c by simp
  show "distinct (map fst (observations (logistic (the (classifiers m l)))))" using c by simp
  show "\<exists>zeros. zeroRow (features (the (classifiers m l))) = Inr zeros"
    using z c(1) by (cases "zeroRow (features c)") auto
qed

lemma importClassifier_language:
  "importClassifier c cc = Inr c' \<Longrightarrow> language c' = language c"
  by (auto simp: importClassifier_def split: sum.splits)

text \<open>
  What the codec does keep: for a well-formed manager, exporting, importing the exported
  model into a manager (whose classifiers for these languages, if it has any, were made
  for them), and exporting again gives the same model; and a classifier whose
  \<^verbatim>\<open>features.length\<close> is the length of its rows, all dense with no feature at column 0, is
  bound after the import exactly as it was before the export. The NER and the slot manager
  are taken to save what they have just loaded.
\<close>

lemma export_import_export:
  assumes wf: "wellFormed P m" and keyed: "keyedOn (languages m) t"
    and ner: "nerSave P (nerLoad P (nerManager t) (nerSave P (nerManager m))) = nerSave P (nerManager m)"
    and slot: "slotSave P (slotLoad P (slotManager t) (slotSave P (slotManager m))) = slotSave P (slotManager m)"
  shows "\<exists>clone m' t' t''.
           export P m = Inr (clone, m') \<and> import P t clone = Inr t' \<and>
           export P t' = Inr (clone, t'') \<and>
           (\<forall>l\<in>set (languages m). \<forall>c. classifiers m l = Some c \<and> denseClassifier c \<longrightarrow>
              classifiers t' l = Some c)"
proof -
  define ls where "ls = languages m"
  define c where "c = (\<lambda>l. the (classifiers m l))"
  define g where "g = (\<lambda>l. exportClassifier (c l))"
  have ds: "distinct ls" using wf by (simp add: wellFormed_def ls_def)
  have cl: "\<And>l. l \<in> set ls \<Longrightarrow> classifiers m l = Some (c l)"
    and lang: "\<And>l. l \<in> set ls \<Longrightarrow> language (c l) = l"
    and keys: "\<And>l. l \<in> set ls \<Longrightarrow> distinct (map fst (observations (logistic (c l))))"
    and tr: "\<And>l. l \<in> set ls \<Longrightarrow> getTruncatedLocale P l = l"
    and zr: "\<And>l. l \<in> set ls \<Longrightarrow> \<exists>zeros. zeroRow (features (c l)) = Inr zeros"
    using wellFormedD [OF wf] by (simp_all add: ls_def c_def)
  define clone where "clone =
     \<lparr>p_settings = m_settings m, p_languages = ls,
       p_intentDomains = Some (intentDomains m),
       p_nerManager = nerSave P (nerManager m),
       p_slotManager = slotSave P (slotManager m),
       p_responses = nlgManager m,
       p_classifiers = map g ls\<rparr>"
  define m' where "m' = m\<lparr>classifiers := exported ls (classifiers m)\<rparr>"
  have e1: "export P m = Inr (clone, m')"
    unfolding clone_def m'_def g_def ls_def
    by (rule export_wellFormed) (use ds cl in \<open>simp_all add: ls_def\<close>)
  define t0 where "t0 =
     t\<lparr>m_settings := m_settings m, languages := ls,
       nerManager := nerLoad P (nerManager t) (nerSave P (nerManager m)),
       slotManager := slotLoad P (slotManager t) (slotSave P (slotManager m)),
       intentDomains := intentDomains m,
       nlgManager := nlgManager m\<rparr>"
  have imp: "import P t clone = importLoop P t0 (map g ls)"
    by (simp add: import_def clone_def t0_def)
  have gl: "\<And>l. language (g l) = language (c l)" by (simp add: g_def exportClassifier_def)
  have mapl: "map language (map g ls) = ls"
  proof -
    have "map (\<lambda>l. language (g l)) ls = map (\<lambda>l. l) ls"
      by (rule map_cong [OF refl]) (simp add: gl lang)
    then show ?thesis by (simp add: o_def)
  qed
  have a1: "distinct (map language (map g ls))" using ds mapl by simp
  have a2: "\<forall>cc\<in>set (map g ls). language cc \<in> set (languages t0) \<and>
           getTruncatedLocale P (language cc) = language cc"
    by (auto simp: gl lang tr t0_def)
  have a3: "\<forall>cc\<in>set (map g ls). \<forall>k. classifiers t0 (language cc) = Some k \<longrightarrow>
           language k = language cc"
  proof (intro ballI allI impI)
    fix cc k assume cc: "cc \<in> set (map g ls)" and k: "classifiers t0 (language cc) = Some k"
    from cc obtain l where l: "l \<in> set ls" "cc = g l" by auto
    have "language cc = l" using l by (simp add: gl lang)
    moreover have "classifiers t l = Some k" using k \<open>language cc = l\<close> by (simp add: t0_def)
    ultimately show "language k = language cc"
      using keyedOnD [OF keyed, of l k] l(1) by (simp add: ls_def)
  qed
  have a4: "\<forall>cc\<in>set (map g ls). \<forall>k. \<exists>c'. importClassifier k cc = Inr c' \<and> language c' = language k"
  proof (intro ballI allI)
    fix cc k assume cc: "cc \<in> set (map g ls)"
    from cc obtain l where l: "l \<in> set ls" "cc = g l" by auto
    from zr [OF l(1)] obtain zeros where z: "zeroRow (features (c l)) = Inr zeros" by blast
    have "importClassifier k (exportClassifier (c l)) =
     Inr (k\<lparr>docs := docs (exportClassifier (c l)), features := features (exportClassifier (c l)),
            logistic := (logistic (exportClassifier (c l)))\<lparr>observations :=
              map (\<lambda>(label, mat). (label, map (denseRow zeros) mat))
                (observations (logistic (exportClassifier (c l))))\<rparr>\<rparr>)"
      by (rule importClassifier_decoded) (simp_all add: exportClassifier_simps z keys l(1))
    then show "\<exists>c'. importClassifier k cc = Inr c' \<and> language c' = language k"
      using importClassifier_language l(2) by (auto simp: g_def)
  qed
  from importLoop_registered [OF a1 a2 a3 a4]
  obtain cs' where i1: "importLoop P t0 (map g ls) = Inr (t0\<lparr>classifiers := cs'\<rparr>)"
    and i2: "\<forall>cc\<in>set (map g ls). \<exists>c0. language c0 = language cc \<and>
               map_option Inr (cs' (language cc)) = Some (importClassifier c0 cc)"
    by (elim exE conjE)
  define t' where "t' = t0\<lparr>classifiers := cs'\<rparr>"
  have e2: "import P t clone = Inr t'" by (simp add: imp i1 t'_def)
  have each: "\<forall>l\<in>set ls. \<exists>d. cs' l = Some d \<and> exportClassifier d = g l \<and>
      (denseClassifier (c l) \<longrightarrow> d = c l)"
  proof
    fix l assume l: "l \<in> set ls"
    then have "g l \<in> set (map g ls)" by simp
    with i2 obtain c0 where c0: "language c0 = language (g l)"
      and got: "map_option Inr (cs' (language (g l))) = Some (importClassifier c0 (g l))" by blast
    have c0l: "language c0 = language (c l)" using c0 by (simp add: gl)
    have at: "map_option Inr (cs' l) = Some (importClassifier c0 (exportClassifier (c l)))"
      using got l by (simp add: g_def exportClassifier_simps lang)
    from zr [OF l] obtain zeros where z: "zeroRow (features (c l)) = Inr zeros" by blast
    from exportClassifier_round_trip [OF z keys [OF l] c0l]
    obtain d where d: "importClassifier c0 (exportClassifier (c l)) = Inr d"
      and de: "exportClassifier d = exportClassifier (c l)" by blast
    have here: "cs' l = Some d" using at d by auto
    have "denseClassifier (c l) \<longrightarrow> d = c l"
      using importClassifier_exportClassifier [OF keys [OF l] c0l] d by auto
    then show "\<exists>d. cs' l = Some d \<and> exportClassifier d = g l \<and> (denseClassifier (c l) \<longrightarrow> d = c l)"
      using here de by (simp add: g_def)
  qed
  then obtain d where d1: "\<And>l. l \<in> set ls \<Longrightarrow> cs' l = Some (d l)"
    and d2: "\<And>l. l \<in> set ls \<Longrightarrow> exportClassifier (d l) = g l"
    and d3: "\<And>l. l \<in> set ls \<Longrightarrow> denseClassifier (c l) \<Longrightarrow> d l = c l"
    by metis
  have lt': "languages t' = ls" by (simp add: t'_def t0_def)
  have e3: "export P t' =
     Inr (\<lparr>p_settings = m_settings t', p_languages = languages t',
           p_intentDomains = Some (intentDomains t'),
           p_nerManager = nerSave P (nerManager t'),
           p_slotManager = slotSave P (slotManager t'),
           p_responses = nlgManager t',
           p_classifiers = map (\<lambda>l. exportClassifier (d l)) (languages t')\<rparr>,
          t'\<lparr>classifiers := exported (languages t') (classifiers t')\<rparr>)"
    by (rule export_wellFormed) (use ds d1 in \<open>simp_all add: lt'\<close>, simp add: t'_def)
  have rt: "map (\<lambda>l. exportClassifier (d l)) ls = map g ls"
    by (rule map_cong [OF refl]) (rule d2)
  have e3': "export P t' = Inr (clone, t'\<lparr>classifiers := exported (languages t') (classifiers t')\<rparr>)"
    unfolding e3 lt' rt by (simp add: clone_def t'_def t0_def ner slot)
  have dense: "\<forall>l\<in>set (languages m). \<forall>k. classifiers m l = Some k \<and> denseClassifier k \<longrightarrow>
              classifiers t' l = Some k"
  proof (intro ballI allI impI)
    fix l k assume l: "l \<in> set (languages m)" and k: "classifiers m l = Some k \<and> denseClassifier k"
    have l': "l \<in> set ls" using l by (simp add: ls_def)
    have kc: "k = c l" using k cl [OF l'] by simp
    have "d l = c l" using d3 [OF l'] k kc by simp
    then show "classifiers t' l = Some k" using d1 [OF l'] kc by (simp add: t'_def)
  qed
  show ?thesis using e1 e2 e3' dense by blast
qed

lemma ex_simps:
  "languages emptyManager = []" "classifiers emptyManager = Map.empty"
  "languages trainedManager = [''en'']"
  "classifiers trainedManager = [''en'' \<mapsto> greetClassifier]"
  "languages reserveManager = [''en'']"
  "classifiers reserveManager = [''en'' \<mapsto> reserveClassifier]"
  by (simp_all add: emptyManager_def trainedManager_def reserveManager_def newManager_def
      exSettings_def Let_def)

lemma zeroRow_examples:
  "zeroRow (features reserveClassifier) = Inr [Some 0]"
  "zeroRow (features greetClassifier) = Inr [Some 0, Some 0, Some 0]"
  by (simp_all add: zeroRow_def lengthOf_def zeroFilled_def reserveClassifier_def
      greetClassifier_def numeral_3_eq_3)

text \<open>On the trained example manager, whose features are an array, imported into an empty one.\<close>

lemma export_import_export_example:
  "wellFormed exPorts trainedManager \<and> keyedOn (languages trainedManager) emptyManager \<and>
   denseClassifier greetClassifier \<and>
   (\<exists>clone m' t' t''.
      export exPorts trainedManager = Inr (clone, m') \<and>
      import exPorts emptyManager clone = Inr t' \<and>
      export exPorts t' = Inr (clone, t'') \<and>
      classifiers t' ''en'' = Some greetClassifier)"
proof -
  have wf: "wellFormed exPorts trainedManager"
    by (simp add: wellFormed_def ex_simps zeroRow_examples)
       (simp add: exPorts_def greetClassifier_def exLrc_def)
  have keyed: "keyedOn (languages trainedManager) emptyManager"
    by (simp add: keyedOn_def ex_simps)
  have dense: "denseClassifier greetClassifier"
    by (simp add: denseClassifier_def zeroRow_examples)
       (simp add: denseObs_def denseCells_def noColumn0_def greetClassifier_def exLrc_def)
  have ner: "nerSave exPorts (nerLoad exPorts (nerManager emptyManager)
      (nerSave exPorts (nerManager trainedManager))) = nerSave exPorts (nerManager trainedManager)"
    by (simp add: exPorts_def)
  have slot: "slotSave exPorts (slotLoad exPorts (slotManager emptyManager)
      (slotSave exPorts (slotManager trainedManager))) = slotSave exPorts (slotManager trainedManager)"
    by (simp add: exPorts_def)
  from export_import_export [OF wf keyed ner slot]
  obtain clone m' t' t'' where
    r: "export exPorts trainedManager = Inr (clone, m')"
       "import exPorts emptyManager clone = Inr t'"
       "export exPorts t' = Inr (clone, t'')"
    and d: "\<forall>l\<in>set (languages trainedManager). \<forall>c.
              classifiers trainedManager l = Some c \<and> denseClassifier c \<longrightarrow>
              classifiers t' l = Some c"
    by (elim exE conjE)
  have "classifiers t' ''en'' = Some greetClassifier"
    using d dense by (simp add: ex_simps)
  then show ?thesis using wf keyed dense r by blast
qed

text \<open>
  Claim C1 says that a model with no feature at column 0 goes through the codec with
  each dense row of length \<^verbatim>\<open>features.length\<close> as it was. For a classifier that holds its
  features in an object it does not: \<^verbatim>\<open>classifier.features.length\<close> is \<^verbatim>\<open>undefined\<close>,
  \<^verbatim>\<open>Array(undefined).fill(0)\<close> is the one-cell array \<open>[0]\<close>, and the rows \<open>[0, 1, 0]\<close> and
  \<open>[0, 0, 1]\<close>, exported as \<open>[1]\<close> and \<open>[2]\<close>, are imported as \<open>[0, 1]\<close> and as
  \<open>[0, _, 1]\<close> with an empty slot.
\<close>

theorem import_loses_dense_rows:
  "map_option (\<lambda>c. (features c, observations (logistic c))) (classifiers reserveManager ''en'')
     = Some (JObj [(''book'', JNum 1), (''flight'', JNum 1), (''table'', JNum 1)],
             [(''reserve'', [[Some 0, Some 1, Some 0], [Some 0, Some 0, Some 1]])]) \<and>
   map_sum id (\<lambda>(clone, m'). map (\<lambda>c. observations (logistic c)) (p_classifiers clone))
     (export exPorts reserveManager) = Inr [[(''reserve'', [[Some 1], [Some 2]])]] \<and>
   map_sum id (\<lambda>t. map_option (\<lambda>c. observations (logistic c)) (classifiers t ''en''))
     (exportImport exPorts reserveManager emptyManager)
     = Inr (Some [(''reserve'', [[Some 0, Some 1], [Some 0, None, Some 1]])])"
  by (simp add: exportImport_def export_def import_def ex_simps exportClassifier_def
      sparseObservations_def sparseRow_def positions_def truthy_def List.map_filter_simps
      addLanguage_def localesOf_def addLocale_def newNlpClassifier_def importClassifier_def
      zeroRow_def lengthOf_def zeroFilled_def denseRow_def setFeature_def
      reserveClassifier_def exLrc_def exPorts_def Let_def
      upt_rec [of 0] upt_rec [of 1] upt_rec [of 2])

section \<open>Export and the state of the manager\<close>

text \<open>
  Claim C2 says that \<^verbatim>\<open>export\<close> leaves every classifier's dense observation matrix as it
  was, so that a later export sees the same state. On the trained example manager it
  does not: the classifier's row \<open>[0, 1, 1]\<close> is the position list \<open>[1, 2]\<close> after the
  call, since the clone's observations are the classifier's own object; and a second
  export, reading \<open>[1, 2]\<close> as if it were a dense row, writes the empty row.
\<close>

theorem export_overwrites_observations:
  "map_option (\<lambda>c. observations (logistic c)) (classifiers trainedManager ''en'')
     = Some [(''greet'', [[Some 0, Some 1, Some 1]])] \<and>
   map_sum id (\<lambda>(clone, m'). map_option (\<lambda>c. observations (logistic c)) (classifiers m' ''en''))
     (export exPorts trainedManager) = Inr (Some [(''greet'', [[Some 1, Some 2]])]) \<and>
   map_sum id (\<lambda>(clone, clone').
        (map (\<lambda>c. observations (logistic c)) (p_classifiers clone),
         map (\<lambda>c. observations (logistic c)) (p_classifiers clone')))
     (exportTwice exPorts trainedManager)
     = Inr ([[(''greet'', [[Some 1, Some 2]])]], [[(''greet'', [[]])]])"
  by (simp add: exportTwice_def export_def ex_simps exportClassifier_def sparseObservations_def sparseRow_def
      positions_def truthy_def greetClassifier_def exLrc_def List.map_filter_simps
      upt_rec [of 0] upt_rec [of 1] upt_rec [of 2])

section \<open>The registry\<close>

lemma addLocale_languages:
  "languages (addLocale P m l) =
     (if getTruncatedLocale P l \<in> set (languages m) then languages m
      else languages m @ [getTruncatedLocale P l])"
  by (simp add: addLocale_def Let_def split: option.splits)

lemma addLocale_classifiers:
  "classifiers (addLocale P m l) =
     (case classifiers m (getTruncatedLocale P l) of
        None \<Rightarrow> (classifiers m)(getTruncatedLocale P l \<mapsto> newNlpClassifier P (getTruncatedLocale P l))
      | Some c \<Rightarrow> classifiers m)"
  by (simp add: addLocale_def Let_def split: option.splits)

lemma addLocale_distinct: "distinct (languages m) \<Longrightarrow> distinct (languages (addLocale P m l))"
  by (simp add: addLocale_languages)

lemma addLocale_keeps: "classifiers m k = Some c \<Longrightarrow> classifiers (addLocale P m l) k = Some c"
  by (auto simp: addLocale_classifiers split: option.splits)

lemma addLocale_mono: "set (languages m) \<subseteq> set (languages (addLocale P m l))"
  by (auto simp: addLocale_languages)

lemma addLocale_registers:
  "getTruncatedLocale P l \<in> set (languages (addLocale P m l)) \<and>
   classifiers (addLocale P m l) (getTruncatedLocale P l) \<noteq> None"
  by (auto simp: addLocale_languages addLocale_classifiers split: option.splits)

lemma addLocales_distinct:
  "distinct (languages m) \<Longrightarrow> distinct (languages (foldl (addLocale P) m ls))"
  by (induction ls arbitrary: m) (simp_all add: addLocale_distinct)

lemma addLocales_keeps:
  "classifiers m k = Some c \<Longrightarrow> classifiers (foldl (addLocale P) m ls) k = Some c"
  by (induction ls arbitrary: m) (simp_all add: addLocale_keeps)

lemma addLocales_mono:
  "x \<in> set (languages m) \<Longrightarrow> x \<in> set (languages (foldl (addLocale P) m ls))"
proof (induction ls arbitrary: m)
  case (Cons l ls)
  then have "x \<in> set (languages (addLocale P m l))" using addLocale_mono by blast
  then show ?case using Cons.IH by simp
qed simp

lemma addLocales_registers:
  "l \<in> set ls \<Longrightarrow>
   getTruncatedLocale P l \<in> set (languages (foldl (addLocale P) m ls)) \<and>
   classifiers (foldl (addLocale P) m ls) (getTruncatedLocale P l) \<noteq> None"
proof (induction ls arbitrary: m)
  case Nil
  then show ?case by simp
next
  case (Cons a ls)
  show ?case
  proof (cases "l \<in> set ls")
    case True
    then show ?thesis using Cons.IH by simp
  next
    case False
    then have "l = a" using Cons.prems by simp
    then obtain c where "getTruncatedLocale P l \<in> set (languages (addLocale P m a))"
      "classifiers (addLocale P m a) (getTruncatedLocale P l) = Some c"
      using addLocale_registers [of P a m] by auto
    then show ?thesis
      using addLocales_mono [of _ "addLocale P m a" P ls]
        addLocales_keeps [of "addLocale P m a" _ c P ls]
      by simp
  qed
qed

lemma addLanguages_fold:
  "foldl (addLanguage P) m calls = foldl (addLocale P) m (concat (map localesOf calls))"
  by (induction calls arbitrary: m) (simp_all add: addLanguage_def)

lemma count_list_distinct: "distinct xs \<Longrightarrow> x \<in> set xs \<Longrightarrow> count_list xs x = 1"
  by (induction xs) auto

text \<open>
  Claim C7. From a manager whose language list has no duplicate (a new manager has none),
  after any sequence of \<^verbatim>\<open>addLanguage\<close> calls the list still has none; the truncation of
  every locale passed to any of the calls is in the list exactly once and is bound to
  exactly one classifier; and a classifier that was bound before the calls is still the
  one bound after them.
\<close>

theorem registry_unique_and_idempotent:
  assumes "distinct (languages m)"
  shows "distinct (languages (foldl (addLanguage P) m calls)) \<and>
         (\<forall>a\<in>set calls. \<forall>l\<in>set (localesOf a).
            count_list (languages (foldl (addLanguage P) m calls)) (getTruncatedLocale P l) = 1 \<and>
            (\<exists>!c. classifiers (foldl (addLanguage P) m calls) (getTruncatedLocale P l) = Some c)) \<and>
         (\<forall>k c. classifiers m k = Some c \<longrightarrow>
            classifiers (foldl (addLanguage P) m calls) k = Some c)"
proof -
  let ?ls = "concat (map localesOf calls)"
  let ?m = "foldl (addLocale P) m ?ls"
  have d: "distinct (languages ?m)" by (rule addLocales_distinct [OF assms])
  have r: "\<forall>a\<in>set calls. \<forall>l\<in>set (localesOf a).
            count_list (languages ?m) (getTruncatedLocale P l) = 1 \<and>
            (\<exists>!c. classifiers ?m (getTruncatedLocale P l) = Some c)"
  proof (intro ballI)
    fix a l assume "a \<in> set calls" "l \<in> set (localesOf a)"
    then have "l \<in> set ?ls" by auto
    from addLocales_registers [OF this, of P m]
    show "count_list (languages ?m) (getTruncatedLocale P l) = 1 \<and>
            (\<exists>!c. classifiers ?m (getTruncatedLocale P l) = Some c)"
      using d by (auto simp: count_list_distinct)
  qed
  have k: "\<forall>k c. classifiers m k = Some c \<longrightarrow> classifiers ?m k = Some c"
    by (simp add: addLocales_keeps)
  show ?thesis unfolding addLanguages_fold using d r k by blast
qed

text \<open>On the example: \<^verbatim>\<open>en\<close>, then \<^verbatim>\<open>en-US\<close> and \<^verbatim>\<open>es\<close>, then \<^verbatim>\<open>es\<close> again.\<close>

theorem registry_unique_and_idempotent_witness:
  "distinct (languages emptyManager) \<and>
   languages (foldl (addLanguage exPorts) emptyManager [One ''en'', Several [''en-US'', ''es''], One ''es'']) =
     [''en'', ''es''] \<and>
   count_list (languages (foldl (addLanguage exPorts) emptyManager
       [One ''en'', Several [''en-US'', ''es''], One ''es''])) (getTruncatedLocale exPorts ''en-US'') = 1 \<and>
   (\<exists>!c. classifiers (foldl (addLanguage exPorts) emptyManager
       [One ''en'', Several [''en-US'', ''es''], One ''es'']) (getTruncatedLocale exPorts ''en-US'') = Some c)"
proof -
  let ?calls = "[One ''en'', Several [''en-US'', ''es''], One ''es'']"
  have d: "distinct (languages emptyManager)" by (simp add: ex_simps)
  have l: "languages (foldl (addLanguage exPorts) emptyManager ?calls) = [''en'', ''es'']"
    by (simp add: addLanguage_def localesOf_def addLocale_languages addLocale_classifiers
        ex_simps exPorts_def)
  from registry_unique_and_idempotent [OF d, of exPorts ?calls]
  have "\<forall>a\<in>set ?calls. \<forall>l\<in>set (localesOf a).
            count_list (languages (foldl (addLanguage exPorts) emptyManager ?calls))
               (getTruncatedLocale exPorts l) = 1 \<and>
            (\<exists>!c. classifiers (foldl (addLanguage exPorts) emptyManager ?calls)
               (getTruncatedLocale exPorts l) = Some c)"
    by blast
  then have "count_list (languages (foldl (addLanguage exPorts) emptyManager ?calls))
               (getTruncatedLocale exPorts ''en-US'') = 1 \<and>
            (\<exists>!c. classifiers (foldl (addLanguage exPorts) emptyManager ?calls)
               (getTruncatedLocale exPorts ''en-US'') = Some c)"
    by (simp add: localesOf_def)
  then show ?thesis using d l by blast
qed

section \<open>Clearing the manager\<close>

text \<open>
  Claim C6 says that \<^verbatim>\<open>clear\<close> empties the intent-to-domain map with the rest of the
  state. \<^verbatim>\<open>clear\<close> has no statement for \<^verbatim>\<open>intentDomains\<close>: on the trained example manager
  \<^verbatim>\<open>greet\<close> is still assigned to \<^verbatim>\<open>default\<close> after the call, and for every manager the map
  is what it was.
\<close>

theorem clear_keeps_intentDomains:
  "intentDomains trainedManager ''greet'' = Some ''default'' \<and>
   intentDomains (clear exPorts trainedManager) ''greet'' = Some ''default'' \<and>
   (\<forall>P m. intentDomains (clear P m) = intentDomains m)"
  by (simp add: clear_def trainedManager_def)

section \<open>Training\<close>

lemma trainLoop_error:
  "trainLoop P m ls = Inl e \<Longrightarrow> \<exists>x. e = Thrown x"
  by (induction ls arbitrary: m) (auto simp: Let_def split: option.splits sum.splits)

lemma trainLoop_total:
  assumes "\<forall>c. \<exists>c'. trainClassifier P c = Inr c'"
  shows "\<exists>m'. trainLoop P m ls = Inr m' \<and> languages m' = languages m \<and>
           dom (classifiers m') = dom (classifiers m)"
proof (induction ls arbitrary: m)
  case Nil
  then show ?case by simp
next
  case (Cons l ls)
  let ?t = "getTruncatedLocale P l"
  show ?case
  proof (cases "classifiers m ?t")
    case None
    then show ?thesis using Cons.IH [of m] by (simp add: Let_def)
  next
    case (Some c)
    from assms obtain c' where c': "trainClassifier P c = Inr c'" by blast
    define m2 where "m2 = m\<lparr>classifiers := (classifiers m)(?t \<mapsto> c')\<rparr>"
    have d: "dom (classifiers m2) = dom (classifiers m)" using Some by (auto simp: m2_def)
    have same: "languages m2 = languages m" by (simp add: m2_def)
    have step: "trainLoop P m (l # ls) = trainLoop P m2 ls"
      using Some c' by (simp add: Let_def m2_def)
    from Cons.IH [of m2] show ?thesis unfolding step d same .
  qed
qed

text \<open>
  Claim C8, amended. \<^verbatim>\<open>train\<close> skips a locale without a bound classifier: the only
  failure of the call is what a classifier's own training throws, never a
  missing-classifier error; and when the training of every classifier completes, the call
  completes, with the same languages and the same locales bound.
\<close>

theorem train_skips_unbound:
  "(\<forall>e. train P m loc = Inl e \<longrightarrow> (\<exists>x. e = Thrown x)) \<and>
   ((\<forall>c. \<exists>c'. trainClassifier P c = Inr c') \<longrightarrow>
      (\<exists>m'. train P m loc = Inr m' \<and> languages m' = languages m \<and>
         dom (classifiers m') = dom (classifiers m)))"
proof (intro conjI allI impI)
  fix e assume "train P m loc = Inl e"
  then show "\<exists>x. e = Thrown x"
    unfolding train_def by (rule trainLoop_error)
next
  assume "\<forall>c. \<exists>c'. trainClassifier P c = Inr c'"
  from trainLoop_total [OF this]
  show "\<exists>m'. train P m loc = Inr m' \<and> languages m' = languages m \<and>
         dom (classifiers m') = dom (classifiers m)"
    by (simp add: train_def)
qed

text \<open>
  Claim C8 as stated fails: \<^verbatim>\<open>fr\<close> has no classifier in the trained example manager, and
  training it completes and changes nothing.
\<close>

theorem train_missing_classifier_counterexample:
  "classifiers trainedManager (getTruncatedLocale exPorts ''fr'') = None \<and>
   train exPorts trainedManager (Some (One ''fr'')) = Inr trainedManager"
  by (simp add: train_def truthyLocales_def localesOf_def exPorts_def ex_simps Let_def)

text \<open>On the example: \<^verbatim>\<open>fr\<close> is skipped and \<^verbatim>\<open>en\<close> is trained.\<close>

theorem train_skips_unbound_witness:
  "(\<forall>c. \<exists>c'. trainClassifier exPorts c = Inr c') \<and>
   classifiers trainedManager (getTruncatedLocale exPorts ''fr'') = None \<and>
   (\<exists>m'. train exPorts trainedManager (Some (Several [''fr'', ''en''])) = Inr m' \<and>
      languages m' = languages trainedManager \<and>
      dom (classifiers m') = dom (classifiers trainedManager))"
proof -
  have t: "\<forall>c. \<exists>c'. trainClassifier exPorts c = Inr c'" by (simp add: exPorts_def)
  have n: "classifiers trainedManager (getTruncatedLocale exPorts ''fr'') = None"
    by (simp add: exPorts_def ex_simps)
  from train_skips_unbound [of exPorts trainedManager "Some (Several [''fr'', ''en''])"] t
  show ?thesis using n by blast
qed

section \<open>The process pipeline: what is returned\<close>

lemma isEqualClassification_all:
  "isEqualClassification cl = list_all (\<lambda>(label, v). v = 0.5) cl"
  by (induction cl rule: isEqualClassification.induct) auto

lemma outcome_degenerate:
  "degenerate c \<Longrightarrow> outcome m c = (''None'', Some ''default'', 1)"
  by (auto simp: degenerate_def outcome_def isEqualClassification_all split: option.splits list.splits)

lemma outcome_top:
  "\<not> degenerate c \<Longrightarrow>
   \<exists>label v rest. c = Some ((label, v) # rest) \<and> outcome m c = (label, intentDomains m label, v)"
  by (auto simp: degenerate_def outcome_def isEqualClassification_all split: option.splits list.splits)

lemma assemble_fields:
  assumes "assemble P m srcContext loc truncated utt c = (r, cx)"
  shows "r_locale r = loc" "classification r = c"
    "(intent r, domain r, score r) = outcome m c"
  using assms by (auto simp: assemble_def Let_def split_def)

lemma complete_untouched: "untouched P m r cx \<Longrightarrow> complete P m r cx = r"
  by (auto simp: untouched_def complete_def Let_def split: prod.splits)

lemma beforeSlotFilling_stage:
  "beforeSlotFilling P m srcLocale srcUtterance srcContext =
     (case resolveLocale P m srcLocale srcUtterance of
        (utt, loc, languageGuessed) \<Rightarrow>
          (case chooseClassification P m languageGuessed utt (truncatedLocale P loc) of
             Inl e \<Rightarrow> Inl e
           | Inr c \<Rightarrow> Inr (assemble P m srcContext loc (truncatedLocale P loc) utt c)))"
  by (simp add: beforeSlotFilling_def Let_def split_def)

lemma process_Inr:
  assumes "resolveLocale P m srcLocale srcUtterance = (utt, loc, g)"
    "chooseClassification P m g utt (truncatedLocale P loc) = Inr c"
  shows "\<exists>r cx. beforeSlotFilling P m srcLocale srcUtterance srcContext = Inr (r, cx) \<and>
           process P m srcLocale srcUtterance srcContext = Inr (complete P m r cx) \<and>
           r_locale r = loc \<and> classification r = c \<and>
           (intent r, domain r, score r) = outcome m c \<and>
           (untouched P m r cx \<longrightarrow> process P m srcLocale srcUtterance srcContext = Inr r)"
proof -
  obtain r cx where a: "assemble P m srcContext loc (truncatedLocale P loc) utt c = (r, cx)"
    by (cases "assemble P m srcContext loc (truncatedLocale P loc) utt c")
  have b: "beforeSlotFilling P m srcLocale srcUtterance srcContext = Inr (r, cx)"
    using assms a by (simp add: beforeSlotFilling_stage)
  then have p: "process P m srcLocale srcUtterance srcContext = Inr (complete P m r cx)"
    by (simp add: process_def)
  show ?thesis
    using b p assemble_fields [OF a] complete_untouched [of P m r cx] by auto
qed

lemma process_Inl:
  assumes "resolveLocale P m srcLocale srcUtterance = (utt, loc, g)"
    "chooseClassification P m g utt (truncatedLocale P loc) = Inl e"
  shows "process P m srcLocale srcUtterance srcContext = Inl e"
  using assms by (simp add: process_def beforeSlotFilling_stage)

lemma process_returns:
  assumes "process P m srcLocale srcUtterance srcContext = Inr out"
  shows "\<exists>utt loc g c r cx. resolveLocale P m srcLocale srcUtterance = (utt, loc, g) \<and>
           chooseClassification P m g utt (truncatedLocale P loc) = Inr c \<and>
           beforeSlotFilling P m srcLocale srcUtterance srcContext = Inr (r, cx) \<and>
           out = complete P m r cx \<and>
           r_locale r = loc \<and> classification r = c \<and>
           (intent r, domain r, score r) = outcome m c \<and>
           (untouched P m r cx \<longrightarrow> out = r)"
proof -
  obtain utt loc g where rl: "resolveLocale P m srcLocale srcUtterance = (utt, loc, g)"
    by (cases "resolveLocale P m srcLocale srcUtterance") auto
  show ?thesis
  proof (cases "chooseClassification P m g utt (truncatedLocale P loc)")
    case (Inl e)
    then show ?thesis using process_Inl [OF rl Inl] assms by simp
  next
    case (Inr c)
    from process_Inr [OF rl Inr, of srcContext] assms rl Inr
    show ?thesis by auto
  qed
qed

text \<open>
  Claim C4, amended. Whenever \<^verbatim>\<open>process\<close> returns, the result it has built when it calls
  the slot manager has intent \<^verbatim>\<open>None\<close>, domain \<^verbatim>\<open>default\<close> and score 1 if its
  classification is absent, empty, or has every score exactly 0.5; otherwise its intent is
  the top label, its domain is what \<^verbatim>\<open>intentDomains\<close> holds for that label, and its score
  is the top score. What \<^verbatim>\<open>process\<close> returns is what the slot manager and the transformer
  make of that result: the result itself on every call on which they leave it untouched.
\<close>

theorem process_outcome_mapping:
  assumes "process P m srcLocale srcUtterance srcContext = Inr out"
  shows "\<exists>r cx. beforeSlotFilling P m srcLocale srcUtterance srcContext = Inr (r, cx) \<and>
           out = complete P m r cx \<and>
           (degenerate (classification r) \<longrightarrow>
              intent r = ''None'' \<and> domain r = Some ''default'' \<and> score r = 1) \<and>
           (\<not> degenerate (classification r) \<longrightarrow>
              (\<exists>label v rest. classification r = Some ((label, v) # rest) \<and>
                 intent r = label \<and> domain r = intentDomains m label \<and> score r = v)) \<and>
           (untouched P m r cx \<longrightarrow> out = r)"
proof -
  from process_returns [OF assms]
  obtain r cx where b: "beforeSlotFilling P m srcLocale srcUtterance srcContext = Inr (r, cx)"
    and out: "out = complete P m r cx"
    and o: "(intent r, domain r, score r) = outcome m (classification r)"
    and u: "untouched P m r cx \<longrightarrow> out = r"
    by auto
  have d: "degenerate (classification r) \<longrightarrow>
              intent r = ''None'' \<and> domain r = Some ''default'' \<and> score r = 1"
    using o outcome_degenerate [of "classification r" m] by auto
  have n: "\<not> degenerate (classification r) \<longrightarrow>
              (\<exists>label v rest. classification r = Some ((label, v) # rest) \<and>
                 intent r = label \<and> domain r = intentDomains m label \<and> score r = v)"
    using o outcome_top [of "classification r" m] by auto
  show ?thesis using b out d n u by blast
qed

lemma untouched_scoringPorts: "untouched (scoringPorts f sub) m r cx"
  by (simp add: untouched_def scoringPorts_def exPorts_def)


lemma scoringPorts_simps:
  "getTruncatedLocale (scoringPorts f sub) = take 2"
  "guess (scoringPorts f sub) = (\<lambda>utt ls. None)"
  "getClassifications (scoringPorts f sub) = (\<lambda>c utt. f (language c) utt)"
  "generateEntityUtterance (scoringPorts f sub) = (\<lambda>n utt l. sub utt)"
  by (simp_all add: scoringPorts_def exPorts_def)

lemma emptyManager_simps:
  "m_settings emptyManager = exSettings\<lparr>fullSearchWhenGuessed := Some True, useNlg := Some True\<rparr>"
  "intentDomains emptyManager = Map.empty"
  "nerManager emptyManager = JNull"
  by (simp_all add: emptyManager_def newManager_def exSettings_def exPorts_def Let_def)

lemma twoLocales_simps:
  "languages twoLocales = [''en'', ''es'']"
  "classifiers twoLocales ''en'' = Some (newNlpClassifier exPorts ''en'')"
  "classifiers twoLocales ''es'' = Some (newNlpClassifier exPorts ''es'')"
  "fullSearchWhenGuessed (m_settings twoLocales) = Some True"
  "nerManager twoLocales = JNull"
  by (simp_all add: twoLocales_def addLanguage_def localesOf_def addLocale_def ex_simps
      emptyManager_simps exPorts_def Let_def)

lemma language_new: "language (newNlpClassifier P l) = l"
  by (simp add: newNlpClassifier_def)

lemma classify_twoLocales:
  "classify (scoringPorts f sub) twoLocales (Some ''en'') (Some (u # us)) = Some (f ''en'' (Some (u # us)))"
  "classify (scoringPorts f sub) twoLocales (Some ''es'') (Some (u # us)) = Some (f ''es'' (Some (u # us)))"
  by (simp_all add: classify_def falsy_def truncatedLocale_def scoringPorts_simps twoLocales_simps
      language_new)

lemma resolve_twoLocales:
  "resolveLocale (scoringPorts f sub) twoLocales None (Some (u # us)) = (Some (u # us), Some ''en'', True)"
  by (simp add: resolveLocale_def initialArgs_def falsy_def registered_def truncatedLocale_def
      guessLanguage_def scoringPorts_simps firstLanguage_def twoLocales_simps)
lemma classify_trained:
  "classify (scoringPorts f sub) trainedManager (Some ''en'') (Some (u # us)) = Some (f ''en'' (Some (u # us)))"
  by (simp add: classify_def falsy_def truncatedLocale_def scoringPorts_simps ex_simps
      greetClassifier_def)

lemma trained_registered: "registered trainedManager (truncatedLocale (scoringPorts f sub) (Some ''en''))"
  by (simp add: registered_def truncatedLocale_def scoringPorts_simps ex_simps)

lemma trunc_en: "truncatedLocale (scoringPorts f sub) (Some ''en'') = Some ''en''"
  by (simp add: truncatedLocale_def scoringPorts_simps)
lemma resolveLocale_given:
  assumes "\<not> falsy srcUtterance" "registered m (truncatedLocale P srcLocale)"
  shows "resolveLocale P m srcLocale srcUtterance = (srcUtterance, srcLocale, False)"
  using assms by (simp add: resolveLocale_def initialArgs_def)

text \<open>On the example: the rewritten utterance is classified as \<^verbatim>\<open>order\<close>, an intent with no domain assigned.\<close>

theorem process_outcome_mapping_witness:
  "\<exists>r. process (scoringPorts pizzaScores pizzaSubstitution) trainedManager (Some ''en'') (Some ''pizza'') None
          = Inr r \<and> classification r = Some [(''order'', 0.9)] \<and>
        \<not> degenerate (classification r) \<and>
        intent r = ''order'' \<and> domain r = None \<and> score r = 0.9"
proof -
  let ?P = "scoringPorts pizzaScores pizzaSubstitution"
  have u: "\<not> falsy (Some ''pizza'')" by (simp add: falsy_def)
  have c: "reclassify ?P trainedManager (Some ''pizza'') (truncatedLocale ?P (Some ''en''))
      = Inr (Some [(''order'', 0.9)])"
    by (simp add: reclassify_def Let_def trunc_en scoringPorts_simps pizzaSubstitution_def
        classify_trained pizzaScores_def)
  then have "chooseClassification ?P trainedManager False (Some ''pizza'') (truncatedLocale ?P (Some ''en''))
      = Inr (Some [(''order'', 0.9)])"
    by (simp add: chooseClassification_def)
  from process_Inr [OF resolveLocale_given [OF u trained_registered] this, of None]
  obtain r0 cx0 where b0: "beforeSlotFilling ?P trainedManager (Some ''en'') (Some ''pizza'') None = Inr (r0, cx0)"
    and p: "process ?P trainedManager (Some ''en'') (Some ''pizza'') None = Inr (complete ?P trainedManager r0 cx0)"
    and cl: "classification r0 = Some [(''order'', 0.9)]" by blast
  from process_outcome_mapping [OF p]
  obtain r cx where b: "beforeSlotFilling ?P trainedManager (Some ''en'') (Some ''pizza'') None = Inr (r, cx)"
    and n: "\<not> degenerate (classification r) \<longrightarrow>
              (\<exists>label v rest. classification r = Some ((label, v) # rest) \<and>
                 intent r = label \<and> domain r = intentDomains trainedManager label \<and> score r = v)"
    and t: "untouched ?P trainedManager r cx \<longrightarrow> complete ?P trainedManager r0 cx0 = r"
    by blast
  have same: "r = r0" using b b0 by simp
  have nd: "\<not> degenerate (classification r)" by (simp add: same cl degenerate_def)
  have "intent r = ''order'' \<and> domain r = intentDomains trainedManager ''order'' \<and> score r = 0.9"
    using n nd cl same by auto
  then have f: "intent r = ''order'' \<and> domain r = None \<and> score r = 0.9"
    by (simp add: trainedManager_def)
  have "process ?P trainedManager (Some ''en'') (Some ''pizza'') None = Inr r"
    using p t untouched_scoringPorts by simp
  then show ?thesis using f nd cl same by blast
qed

text \<open>
  Claim C4 as stated fails for the result \<^verbatim>\<open>process\<close> returns, since the slot manager runs
  after the mapping and may redirect the intent: here the classification has \<^verbatim>\<open>order\<close> on
  top, and the intent returned is the slot elicitation.
\<close>

theorem returned_intent_counterexample:
  "map_sum id (\<lambda>r. (classification r, intent r))
     (process (elicitingPorts pizzaScores pizzaSubstitution) trainedManager
        (Some ''en'') (Some ''pizza'') None)
     = Inr (Some [(''order'', 0.9)], ''slot.elicit'')"
proof -
  let ?P = "elicitingPorts pizzaScores pizzaSubstitution"
  have ports:
    "getTruncatedLocale ?P = take 2"
    "getClassifications ?P = (\<lambda>c utt. pizzaScores (language c) utt)"
    "generateEntityUtterance ?P = (\<lambda>n utt l. pizzaSubstitution utt)"
    "slotProcess ?P = (\<lambda>s r cx. (True, r\<lparr>intent := ''slot.elicit''\<rparr>, cx))"
    "processTransformer ?P = (\<lambda>r. r)"
    by (simp_all add: elicitingPorts_def scoringPorts_def exPorts_def)
  have t: "truncatedLocale ?P (Some ''en'') = Some ''en''"
    by (simp add: truncatedLocale_def ports)
  have g: "registered trainedManager (truncatedLocale ?P (Some ''en''))"
    by (simp add: t registered_def ex_simps)
  have u: "\<not> falsy (Some ''pizza'')" by (simp add: falsy_def)
  have cl: "\<And>u us. classify ?P trainedManager (Some ''en'') (Some (u # us))
      = Some (pizzaScores ''en'' (Some (u # us)))"
    by (simp add: classify_def falsy_def t ports ex_simps greetClassifier_def)
  have c: "reclassify ?P trainedManager (Some ''pizza'') (truncatedLocale ?P (Some ''en''))
      = Inr (Some [(''order'', 0.9)])"
    by (simp add: reclassify_def Let_def t ports pizzaSubstitution_def cl pizzaScores_def)
  then have "chooseClassification ?P trainedManager False (Some ''pizza'') (truncatedLocale ?P (Some ''en''))
      = Inr (Some [(''order'', 0.9)])"
    by (simp add: chooseClassification_def)
  from process_Inr [OF resolveLocale_given [OF u g] this, of None]
  obtain r cx where p: "process ?P trainedManager (Some ''en'') (Some ''pizza'') None
      = Inr (complete ?P trainedManager r cx)"
    and k: "classification r = Some [(''order'', 0.9)]" by blast
  have "classification (complete ?P trainedManager r cx) = Some [(''order'', 0.9)] \<and>
      intent (complete ?P trainedManager r cx) = ''slot.elicit''"
    by (simp add: complete_def Let_def ports k)
  then show ?thesis by (simp add: p)
qed

section \<open>Full search\<close>

lemma notAbove_cases:
  "notAbove b c = (\<forall>label v rest. c = Some ((label, v) # rest) \<longrightarrow> v \<le> b)"
  by (auto simp: notAbove_def topScore_def split: option.splits list.splits)

lemma below_cases:
  "below b c = (\<forall>label v rest. c = Some ((label, v) # rest) \<longrightarrow> v < b)"
  by (auto simp: below_def topScore_def split: option.splits list.splits)

lemma scanStep_keeps:
  assumes "fst best = Some b" "notAbove b (classify P m (Some lang) utt)"
  shows "scanStep P m utt best lang = best"
  using assms
  by (auto simp: scanStep_def notAbove_cases split: option.splits list.splits)

lemma scan_keeps:
  assumes "fst best = Some b" "\<forall>lang\<in>set ls. notAbove b (classify P m (Some lang) utt)"
  shows "foldl (scanStep P m utt) best ls = best"
  using assms
  by (induction ls) (simp_all add: scanStep_keeps)

lemma scanStep_under:
  assumes "under b best" "below b (classify P m (Some lang) utt)"
  shows "under b (scanStep P m utt best lang)"
  using assms
  by (auto simp: scanStep_def below_cases under_def split: option.splits list.splits)

lemma scan_under:
  assumes "under b best" "\<forall>lang\<in>set ls. below b (classify P m (Some lang) utt)"
  shows "under b (foldl (scanStep P m utt) best ls)"
  using assms
  by (induction ls arbitrary: best) (simp_all add: scanStep_under)

lemma scanStep_takes:
  assumes "under vb best" "classify P m (Some B) utt = Some ((lb, vb) # rb)"
  shows "scanStep P m utt best B = (Some vb, Some ((lb, vb) # rb))"
  using assms
  by (auto simp: scanStep_def under_def split: option.splits)

lemma scan_picks:
  assumes "classify P m (Some B) utt = Some ((lb, vb) # rb)"
    and "\<forall>A\<in>set pre. below vb (classify P m (Some A) utt)"
    and "\<forall>C\<in>set post. notAbove vb (classify P m (Some C) utt)"
  shows "foldl (scanStep P m utt) (None, None) (pre @ B # post) = (Some vb, Some ((lb, vb) # rb))"
proof -
  have "under vb (foldl (scanStep P m utt) (None, None) pre)"
    by (rule scan_under) (simp_all add: under_def assms(2))
  then have "scanStep P m utt (foldl (scanStep P m utt) (None, None) pre) B =
      (Some vb, Some ((lb, vb) # rb))"
    by (rule scanStep_takes) (rule assms(1))
  moreover have "foldl (scanStep P m utt) (Some vb, Some ((lb, vb) # rb)) post =
      (Some vb, Some ((lb, vb) # rb))"
    by (rule scan_keeps [where b = vb]) (simp_all add: assms(3))
  ultimately show ?thesis by simp
qed

lemma fullSearch_picks:
  assumes "languages m = pre @ B # post"
    and "classify P m (Some B) utt = Some ((lb, vb) # rb)"
    and "\<forall>A\<in>set pre. below vb (classify P m (Some A) utt)"
    and "\<forall>C\<in>set post. notAbove vb (classify P m (Some C) utt)"
    and "\<forall>L\<in>set (languages m).
           notAbove vb (classify P m (Some L) (generateEntityUtterance P (nerManager m) utt truncated))"
  shows "fullSearch P m utt truncated = Some ((lb, vb) # rb)"
proof -
  have one: "foldl (scanStep P m utt) (None, None) (languages m) = (Some vb, Some ((lb, vb) # rb))"
    unfolding assms(1) by (rule scan_picks [OF assms(2,3,4)])
  have two: "foldl (scanStep P m (generateEntityUtterance P (nerManager m) utt truncated))
      (Some vb, Some ((lb, vb) # rb)) (languages m) = (Some vb, Some ((lb, vb) # rb))"
    by (rule scan_keeps [where b = vb]) (simp_all add: assms(5))
  show ?thesis by (simp add: fullSearch_def Let_def one two)
qed

text \<open>
  Claim C3, amended. When the locale was guessed and full search is enabled, and the top
  score of the utterance under the classifier of a registered locale B is strictly above
  the top score under every locale registered before B, not under the top score under
  any locale registered after B, and not under the top score of the entity-substituted
  utterance under any registered locale, then \<^verbatim>\<open>process\<close> chooses B's classification: the
  result it has built when it calls the slot manager has it, and \<^verbatim>\<open>process\<close> returns
  what the slot manager and the transformer make of that result, the result itself on
  every call on which they leave it untouched. (A classification without an entry has no
  top score and never replaces the best.)
\<close>

theorem full_search_returns_first_maximum:
  assumes "resolveLocale P m srcLocale srcUtterance = (utt, loc, True)"
    and "fullSearchWhenGuessed (m_settings m) = Some True"
    and "languages m = pre @ B # post"
    and "classify P m (Some B) utt = Some ((lb, vb) # rb)"
    and "\<forall>A\<in>set pre. below vb (classify P m (Some A) utt)"
    and "\<forall>C\<in>set post. notAbove vb (classify P m (Some C) utt)"
    and "\<forall>L\<in>set (languages m).
           notAbove vb (classify P m (Some L)
             (generateEntityUtterance P (nerManager m) utt (truncatedLocale P loc)))"
  shows "\<exists>r cx. beforeSlotFilling P m srcLocale srcUtterance srcContext = Inr (r, cx) \<and>
           classification r = Some ((lb, vb) # rb) \<and>
           process P m srcLocale srcUtterance srcContext = Inr (complete P m r cx) \<and>
           (untouched P m r cx \<longrightarrow> process P m srcLocale srcUtterance srcContext = Inr r)"
proof -
  have "fullSearch P m utt (truncatedLocale P loc) = Some ((lb, vb) # rb)"
    by (rule fullSearch_picks [OF assms(3-7)])
  then have "chooseClassification P m True utt (truncatedLocale P loc) = Inr (Some ((lb, vb) # rb))"
    by (simp add: chooseClassification_def assms(2))
  from process_Inr [OF assms(1) this, of srcContext] show ?thesis by blast
qed

text \<open>On the example: \<^verbatim>\<open>hola\<close> scores 0.6 under \<^verbatim>\<open>en\<close> and 0.7 under \<^verbatim>\<open>es\<close>, and no entity is substituted.\<close>

theorem full_search_returns_first_maximum_witness:
  "resolveLocale (scoringPorts holaScores (\<lambda>utt. utt)) twoLocales None (Some ''hola'')
     = (Some ''hola'', Some ''en'', True) \<and>
   languages twoLocales = [''en''] @ ''es'' # [] \<and>
   below 0.7 (classify (scoringPorts holaScores (\<lambda>utt. utt)) twoLocales (Some ''en'') (Some ''hola'')) \<and>
   (\<exists>r. process (scoringPorts holaScores (\<lambda>utt. utt)) twoLocales None (Some ''hola'') None = Inr r \<and>
        classification r = Some [(''saludo'', 0.7)])"
proof -
  let ?P = "scoringPorts holaScores (\<lambda>utt. utt)"
  have r: "resolveLocale ?P twoLocales None (Some ''hola'') = (Some ''hola'', Some ''en'', True)"
    by (rule resolve_twoLocales)
  have f: "fullSearchWhenGuessed (m_settings twoLocales) = Some True"
    by (simp add: twoLocales_simps)
  have l: "languages twoLocales = [''en''] @ ''es'' # []" by (simp add: twoLocales_simps)
  have b: "classify ?P twoLocales (Some ''es'') (Some ''hola'') = Some ((''saludo'', 0.7) # [])"
    by (simp add: classify_twoLocales holaScores_def)
  have en: "below 0.7 (classify ?P twoLocales (Some ''en'') (Some ''hola''))"
    by (simp add: classify_twoLocales holaScores_def below_def topScore_def)
  have pre: "\<forall>A\<in>set [''en'']. below 0.7 (classify ?P twoLocales (Some A) (Some ''hola''))"
    using en by simp
  have post: "\<forall>C\<in>set []. notAbove 0.7 (classify ?P twoLocales (Some C) (Some ''hola''))"
    by simp
  have sub: "\<forall>L\<in>set (languages twoLocales). notAbove 0.7 (classify ?P twoLocales (Some L)
      (generateEntityUtterance ?P (nerManager twoLocales) (Some ''hola'')
         (truncatedLocale ?P (Some ''en''))))"
    by (simp add: twoLocales_simps scoringPorts_simps classify_twoLocales holaScores_def
        notAbove_def topScore_def)
  from full_search_returns_first_maximum [OF r f l b pre post sub, of None] untouched_scoringPorts
  have "\<exists>r. process ?P twoLocales None (Some ''hola'') None = Inr r \<and>
        classification r = Some [(''saludo'', 0.7)]"
    by auto
  then show ?thesis using r l en by simp
qed

text \<open>
  Claim C3 as stated fails. \<^verbatim>\<open>en\<close> is registered before \<^verbatim>\<open>es\<close>, the locale is guessed
  with full search enabled, and the utterance scores 0.7 under \<^verbatim>\<open>es\<close>, strictly above its
  0.6 under \<^verbatim>\<open>en\<close>; but the entity-substituted utterance scores 0.9 under \<^verbatim>\<open>en\<close>, and
  that classification is returned, not the one of \<^verbatim>\<open>es\<close>.
\<close>

theorem full_search_counterexample:
  "languages twoLocales = [''en'', ''es''] \<and>
   resolveLocale (scoringPorts pizzaScores pizzaSubstitution) twoLocales None (Some ''pizza'')
     = (Some ''pizza'', Some ''en'', True) \<and>
   fullSearchWhenGuessed (m_settings twoLocales) = Some True \<and>
   classify (scoringPorts pizzaScores pizzaSubstitution) twoLocales (Some ''en'') (Some ''pizza'')
     = Some [(''greet'', 0.6)] \<and>
   classify (scoringPorts pizzaScores pizzaSubstitution) twoLocales (Some ''es'') (Some ''pizza'')
     = Some [(''saludo'', 0.7)] \<and>
   map_sum id classification
     (process (scoringPorts pizzaScores pizzaSubstitution) twoLocales None (Some ''pizza'') None)
     = Inr (Some [(''order'', 0.9)])"
proof -
  let ?P = "scoringPorts pizzaScores pizzaSubstitution"
  have c: "fullSearch ?P twoLocales (Some ''pizza'') (truncatedLocale ?P (Some ''en''))
      = Some [(''order'', 0.9)]"
    by (simp add: fullSearch_def Let_def scanStep_def classify_twoLocales twoLocales_simps
        scoringPorts_simps pizzaScores_def pizzaSubstitution_def)
  then have "chooseClassification ?P twoLocales True (Some ''pizza'') (truncatedLocale ?P (Some ''en''))
      = Inr (Some [(''order'', 0.9)])"
    by (simp add: chooseClassification_def twoLocales_simps)
  from process_Inr [OF resolve_twoLocales this, of None] untouched_scoringPorts
  have "map_sum id classification (process ?P twoLocales None (Some ''pizza'') None)
     = Inr (Some [(''order'', 0.9)])" by auto
  then show ?thesis
    by (simp add: twoLocales_simps resolve_twoLocales classify_twoLocales pizzaScores_def)
qed

section \<open>An empty classification of the utterance\<close>

text \<open>
  Claim C9 says that \<^verbatim>\<open>process\<close> still returns a result when the classifier gives an empty
  classification for the utterance and a non-empty one for its entity-substituted variant.
  It throws: with \<^verbatim>\<open>en\<close> registered and given, \<^verbatim>\<open>i want pizza\<close> classified as \<open>[]\<close> and its
  variant \<^verbatim>\<open>i want %food%\<close> as \<^verbatim>\<open>order\<close> with 0.8, the comparison reads
  \<^verbatim>\<open>result.classification[0].value\<close> of the empty classification.
\<close>

theorem process_throws_on_empty_classification:
  "registered trainedManager (truncatedLocale (scoringPorts orderScores foodSubstitution) (Some ''en'')) \<and>
   classify (scoringPorts orderScores foodSubstitution) trainedManager (Some ''en'') (Some ''i want pizza'')
     = Some [] \<and>
   generateEntityUtterance (scoringPorts orderScores foodSubstitution) (nerManager trainedManager)
     (Some ''i want pizza'') (Some ''en'') = Some ''i want %food%'' \<and>
   classify (scoringPorts orderScores foodSubstitution) trainedManager (Some ''en'') (Some ''i want %food%'')
     = Some [(''order'', 0.8)] \<and>
   process (scoringPorts orderScores foodSubstitution) trainedManager (Some ''en'') (Some ''i want pizza'') None
     = Inl TypeError"
proof -
  let ?P = "scoringPorts orderScores foodSubstitution"
  have u: "\<not> falsy (Some ''i want pizza'')" by (simp add: falsy_def)
  have c: "reclassify ?P trainedManager (Some ''i want pizza'') (truncatedLocale ?P (Some ''en''))
      = Inl TypeError"
    by (simp add: reclassify_def Let_def trunc_en scoringPorts_simps foodSubstitution_def
        classify_trained orderScores_def)
  then have "chooseClassification ?P trainedManager False (Some ''i want pizza'')
      (truncatedLocale ?P (Some ''en'')) = Inl TypeError"
    by (simp add: chooseClassification_def)
  from process_Inl [OF resolveLocale_given [OF u trained_registered] this, of None]
  show ?thesis
    by (simp add: trained_registered classify_trained orderScores_def scoringPorts_simps
        foodSubstitution_def)
qed

section \<open>Entity-aware reclassification\<close>

text \<open>
  For a call with an utterance and a registered locale, \<^verbatim>\<open>process\<close> chooses the
  classification of the entity-substituted utterance when its top score is strictly above
  the top score of the classification of the utterance itself, and the latter otherwise,
  in every case but one: a substituted utterance that differs and has a top score, against
  an utterance whose classification has none.
\<close>

lemma reclassification_keeps_strictly_better:
  assumes "\<not> falsy srcUtterance" and "registered m (truncatedLocale P srcLocale)"
    and "orig = classify P m (truncatedLocale P srcLocale) srcUtterance"
    and "optionalUtterance =
           generateEntityUtterance P (nerManager m) srcUtterance (truncatedLocale P srcLocale)"
    and "sub = classify P m (truncatedLocale P srcLocale) optionalUtterance"
    and "topScore orig \<noteq> None \<or> topScore sub = None \<or> optionalUtterance = srcUtterance"
  shows "\<exists>r cx. beforeSlotFilling P m srcLocale srcUtterance srcContext = Inr (r, cx) \<and>
           classification r = (if exceeds sub orig then sub else orig) \<and>
           (intent r, domain r, score r) = outcome m (classification r) \<and>
           process P m srcLocale srcUtterance srcContext = Inr (complete P m r cx)"
proof -
  let ?t = "truncatedLocale P srcLocale"
  let ?c = "if exceeds sub orig then sub else orig"
  have same: "optionalUtterance = srcUtterance \<Longrightarrow> sub = orig"
    using assms(3,5) by simp
  have "reclassify P m srcUtterance ?t = Inr ?c"
  proof (cases "optionalUtterance = srcUtterance")
    case True
    have "\<not> exceeds orig orig"
      by (simp add: exceeds_def split: option.splits)
    then show ?thesis
      using True same assms(3,4) by (simp add: reclassify_def Let_def)
  next
    case False
    then have "topScore orig \<noteq> None \<or> topScore sub = None" using assms(6) by simp
    then show ?thesis
      using False assms(3,4,5)
      by (auto simp: reclassify_def Let_def exceeds_def topScore_def
          split: option.splits list.splits)
  qed
  then have "chooseClassification P m False srcUtterance ?t = Inr ?c"
    by (simp add: chooseClassification_def)
  from process_Inr [OF resolveLocale_given [OF assms(1,2)] this, of srcContext]
  show ?thesis by auto
qed

text \<open>
  Claim C5 says that the original classification is kept whenever the substituted one
  does not have a strictly greater top score. In the case left out above it is not:
  with \<^verbatim>\<open>en\<close> registered and given, \<^verbatim>\<open>fly to rome\<close> classified as \<open>[]\<close> and its variant
  \<^verbatim>\<open>fly to %city%\<close> as \<^verbatim>\<open>travel\<close> with 0.9, no top score exceeds another, and \<^verbatim>\<open>process\<close>
  throws where the claim has it keep the empty classification. The defect is that of
  claim C9.
\<close>

theorem reclassification_throws_instead_of_keeping:
  "\<not> falsy (Some ''fly to rome'') \<and>
   registered trainedManager (truncatedLocale (scoringPorts flightScores citySubstitution) (Some ''en'')) \<and>
   classify (scoringPorts flightScores citySubstitution) trainedManager (Some ''en'') (Some ''fly to rome'')
     = Some [] \<and>
   classify (scoringPorts flightScores citySubstitution) trainedManager (Some ''en'')
     (generateEntityUtterance (scoringPorts flightScores citySubstitution) (nerManager trainedManager)
        (Some ''fly to rome'') (Some ''en''))
     = Some [(''travel'', 0.9)] \<and>
   \<not> exceeds (Some [(''travel'', 0.9)]) (Some []) \<and>
   process (scoringPorts flightScores citySubstitution) trainedManager (Some ''en'') (Some ''fly to rome'') None
     = Inl TypeError"
proof -
  let ?P = "scoringPorts flightScores citySubstitution"
  have u: "\<not> falsy (Some ''fly to rome'')" by (simp add: falsy_def)
  have c: "reclassify ?P trainedManager (Some ''fly to rome'') (truncatedLocale ?P (Some ''en''))
      = Inl TypeError"
    by (simp add: reclassify_def Let_def trunc_en scoringPorts_simps citySubstitution_def
        classify_trained flightScores_def)
  then have "chooseClassification ?P trainedManager False (Some ''fly to rome'')
      (truncatedLocale ?P (Some ''en'')) = Inl TypeError"
    by (simp add: chooseClassification_def)
  from process_Inl [OF resolveLocale_given [OF u trained_registered] this, of None]
  show ?thesis
    by (simp add: u trained_registered classify_trained flightScores_def scoringPorts_simps
        citySubstitution_def exceeds_def topScore_def)
qed

section \<open>Locale fallback\<close>





end
